theory Spec2Isabelle
  imports Main "HOL-Library.Word" "HOL-Library.Signed_Division"
begin

unbundle bit_operations_syntax

section \<open>CS 104 slave: the low-priority message queue\<close>

text \<open>
  The embedding follows \<^verbatim>\<open>cs104_slave.c\<close>. Pointers into a queue's byte buffer are
  machine addresses (\<^typ>\<open>nat\<close>, with \<open>0\<close> for \<^verbatim>\<open>NULL\<close>); the buffer itself is the
  allocated block that starts at address \<open>buffer\<close> and is \<open>qsize\<close> bytes long.
  Its content is kept as typed cells: \<open>mem a = Some (info, bytes)\<close> says that the
  entry header \<open>info\<close> was copied to address \<open>a\<close> and the encoded ASDU \<open>bytes\<close> right
  behind it; \<open>None\<close> says that no intact entry header stands at \<open>a\<close>. A function
  that copies a header from such an address yields \<open>None\<close>: what the C program
  reads there depends on left-over bytes that are not modelled.
\<close>

type_synonym byte = "8 word"
type_synonym uint64_t = "64 word"

datatype QueueEntryState =
    QUEUE_ENTRY_STATE_NOT_USED_OR_CONFIRMED
  | QUEUE_ENTRY_STATE_WAITING_FOR_TRANSMISSION
  | QUEUE_ENTRY_STATE_SENT_BUT_NOT_CONFIRMED

text \<open>\<^verbatim>\<open>struct sMessageQueueEntryInfo\<close>; the field \<^verbatim>\<open>size\<close> is named \<open>entry_size\<close>.\<close>

record sMessageQueueEntryInfo =
  entryTimestamp :: uint64_t
  entryState :: QueueEntryState
  entry_size :: nat

text \<open>\<^verbatim>\<open>struct sMessageQueue\<close>; the field \<^verbatim>\<open>size\<close> is named \<open>qsize\<close>.\<close>

record sMessageQueue =
  qsize :: nat
  entryCounter :: int
  firstEntry :: nat
  lastEntry :: nat
  lastInBufferEntry :: nat
  oldestTimestamp :: uint64_t
  buffer :: nat
  mem :: "nat \<Rightarrow> (sMessageQueueEntryInfo \<times> byte list) option"

text \<open>
  \<^verbatim>\<open>sizeof(struct sMessageQueueEntryInfo)\<close>: a 64-bit time stamp, one 32-bit unit
  holding the two bit fields, and padding up to the alignment of the time stamp
  (the LP64 layout).
\<close>

definition sizeof_sMessageQueueEntryInfo :: nat where
  "sizeof_sMessageQueueEntryInfo = 16"

text \<open>
  Modelled from the spec: the macro \<^verbatim>\<open>IEC60870_5_104_APCI_LENGTH\<close> comes from a
  header that is not part of the sources at hand; the specification gives the APCI as
  the six bytes \<^verbatim>\<open>0x68, length, C1, C2, C3, C4\<close>.
\<close>

definition IEC60870_5_104_APCI_LENGTH :: nat where
  "IEC60870_5_104_APCI_LENGTH = 6"

text \<open>
  Writing an entry of \<open>n\<close> bytes (header and ASDU) at address \<open>p\<close>: the cell at
  \<open>p\<close> holds the new entry, and every other header whose bytes
  \<open>[a, a + sizeof)\<close> meet \<open>[p, p + n)\<close> is destroyed.
\<close>

definition store_entry ::
  "(nat \<Rightarrow> (sMessageQueueEntryInfo \<times> byte list) option) \<Rightarrow> nat \<Rightarrow> nat \<Rightarrow>
   sMessageQueueEntryInfo \<times> byte list \<Rightarrow> (nat \<Rightarrow> (sMessageQueueEntryInfo \<times> byte list) option)" where
  "store_entry m p n cell =
     (\<lambda>a. if a = p then Some cell
          else if p < a + sizeof_sMessageQueueEntryInfo \<and> a < p + n then None
          else m a)"

text \<open>\<^verbatim>\<open>MessageQueue_initialize\<close>; \<open>base\<close> is the address the allocator returned.\<close>

definition MessageQueue_initialize :: "nat \<Rightarrow> nat \<Rightarrow> sMessageQueue" where
  "MessageQueue_initialize base maxQueueSize =
     \<lparr> qsize = maxQueueSize * (sizeof_sMessageQueueEntryInfo + 256),
       entryCounter = 0,
       firstEntry = 0, lastEntry = 0, lastInBufferEntry = 0,
       oldestTimestamp = 0,
       buffer = base,
       mem = (\<lambda>a. None) \<rparr>"

text \<open>
  The eviction loop of \<^verbatim>\<open>MessageQueue_enqueueASDU\<close>
  (\<^verbatim>\<open>while ((nextMsgPtr + entrySize > self->firstEntry) && (self->entryCounter > 0))\<close>).
\<close>

function removeOldEntries ::
  "nat \<Rightarrow> nat \<Rightarrow> uint64_t \<Rightarrow> sMessageQueue \<Rightarrow> sMessageQueue option" where
  "removeOldEntries nextMsgPtr entrySize currentTimestamp self =
     (if nextMsgPtr + entrySize > firstEntry self \<and> entryCounter self > 0 then
        (if firstEntry self \<noteq> lastEntry self then
           (if firstEntry self \<noteq> lastInBufferEntry self then
              (case mem self (firstEntry self) of
                 None \<Rightarrow> None
               | Some (entryInfo, asdu) \<Rightarrow>
                   removeOldEntries nextMsgPtr entrySize currentTimestamp
                     (self\<lparr> firstEntry := firstEntry self + sizeof_sMessageQueueEntryInfo
                                            + entry_size entryInfo,
                            entryCounter := entryCounter self - 1 \<rparr>))
            else
              (case mem self (buffer self) of
                 None \<Rightarrow> None
               | Some (entryInfo, asdu) \<Rightarrow>
                   Some (self\<lparr> firstEntry := buffer self,
                              oldestTimestamp := entryTimestamp entryInfo,
                              entryCounter := entryCounter self - 1 \<rparr>)))
         else
           removeOldEntries nextMsgPtr entrySize currentTimestamp
             (self\<lparr> firstEntry := nextMsgPtr,
                    oldestTimestamp := currentTimestamp,
                    lastInBufferEntry := nextMsgPtr,
                    entryCounter := 0 \<rparr>))
      else Some self)"
  by pat_completeness auto
termination
  by (relation "measure (\<lambda>(p, n, t, self). nat (entryCounter self))") auto

text \<open>
  \<^verbatim>\<open>MessageQueue_enqueueASDU\<close>. The ASDU is given by its encoding \<open>asdu\<close>
  (\<^verbatim>\<open>asduHeaderLength + payloadSize\<close> bytes); \<open>currentTimestamp\<close> is the value of
  \<^verbatim>\<open>Hal_getTimeInMs()\<close>. The early \<^verbatim>\<open>return\<close> for an ASDU that is too large
  leaves the queue as it is.
\<close>

definition MessageQueue_enqueueASDU ::
  "uint64_t \<Rightarrow> byte list \<Rightarrow> sMessageQueue \<Rightarrow> sMessageQueue option" where
  "MessageQueue_enqueueASDU currentTimestamp asdu self =
     (let asduSize = length asdu in
      if asduSize > 256 - IEC60870_5_104_APCI_LENGTH then Some self
      else
        let entrySize = sizeof_sMessageQueueEntryInfo + asduSize in
        case (if entryCounter self = 0 then
                Some (self\<lparr> firstEntry := buffer self,
                           oldestTimestamp := currentTimestamp,
                           lastInBufferEntry := buffer self \<rparr>, buffer self)
              else
                (case mem self (lastEntry self) of
                   None \<Rightarrow> None
                 | Some (entryInfo, old) \<Rightarrow>
                     Some (self, lastEntry self + sizeof_sMessageQueueEntryInfo
                                  + entry_size entryInfo))) of
          None \<Rightarrow> None
        | Some (self1, nextMsgPtr1) \<Rightarrow>
            let (self2, nextMsgPtr) =
                  (if nextMsgPtr1 + entrySize > buffer self1 + qsize self1
                   then (self1\<lparr> lastInBufferEntry := lastEntry self1 \<rparr>, buffer self1)
                   else (self1, nextMsgPtr1)) in
            case (if entryCounter self2 > 0 then
                    (if nextMsgPtr \<le> firstEntry self2
                     then removeOldEntries nextMsgPtr entrySize currentTimestamp self2
                     else Some (self2\<lparr> lastInBufferEntry := nextMsgPtr \<rparr>))
                  else Some self2) of
              None \<Rightarrow> None
            | Some self3 \<Rightarrow>
                Some (self3\<lparr> lastEntry := nextMsgPtr,
                            entryCounter := entryCounter self3 + 1,
                            mem := store_entry (mem self3) nextMsgPtr entrySize
                                     (\<lparr> entryTimestamp = currentTimestamp,
                                        entryState = QUEUE_ENTRY_STATE_WAITING_FOR_TRANSMISSION,
                                        entry_size = asduSize \<rparr>, asdu) \<rparr>))"

text \<open>
  The search loop of \<^verbatim>\<open>MessageQueue_getNextWaitingASDU\<close>; it yields the entry
  pointer and the copy \<^verbatim>\<open>entryInfo\<close> the loop ends with.
\<close>

partial_function (option) getNextWaitingASDU_loop ::
  "sMessageQueue \<Rightarrow> nat \<Rightarrow> sMessageQueueEntryInfo \<Rightarrow> (nat \<times> sMessageQueueEntryInfo) option" where
  "getNextWaitingASDU_loop self entryPtr entryInfo =
     (if entryState entryInfo \<noteq> QUEUE_ENTRY_STATE_WAITING_FOR_TRANSMISSION then
        (if entryPtr = lastEntry self then Some (entryPtr, entryInfo)
         else
           (case mem self (if entryPtr = lastInBufferEntry self then buffer self
                           else entryPtr + sizeof_sMessageQueueEntryInfo + entry_size entryInfo) of
              None \<Rightarrow> None
            | Some (nextInfo, asdu) \<Rightarrow>
                getNextWaitingASDU_loop self
                  (if entryPtr = lastInBufferEntry self then buffer self
                   else entryPtr + sizeof_sMessageQueueEntryInfo + entry_size entryInfo)
                  nextInfo))
      else Some (entryPtr, entryInfo))"

declare getNextWaitingASDU_loop.simps [code]

text \<open>
  \<^verbatim>\<open>MessageQueue_getNextWaitingASDU\<close>: the queue afterwards, and either \<open>None\<close>
  (the \<^verbatim>\<open>NULL\<close> result) or the time stamp, the queue entry pointer, the size and the
  ASDU bytes handed to the caller.
\<close>

definition MessageQueue_getNextWaitingASDU ::
  "sMessageQueue \<Rightarrow> (sMessageQueue \<times> (uint64_t \<times> nat \<times> nat \<times> byte list) option) option" where
  "MessageQueue_getNextWaitingASDU self =
     (if entryCounter self \<noteq> 0 then
        (case mem self (firstEntry self) of
           None \<Rightarrow> None
         | Some (firstInfo, asdu0) \<Rightarrow>
             (case getNextWaitingASDU_loop self (firstEntry self) firstInfo of
                None \<Rightarrow> None
              | Some (entryPtr, entryInfo) \<Rightarrow>
                  if entryState entryInfo = QUEUE_ENTRY_STATE_WAITING_FOR_TRANSMISSION then
                    (case mem self entryPtr of
                       None \<Rightarrow> None
                     | Some (stored, asdu) \<Rightarrow>
                         Some (self\<lparr> mem := (mem self)(entryPtr \<mapsto>
                                   (entryInfo\<lparr> entryState := QUEUE_ENTRY_STATE_SENT_BUT_NOT_CONFIRMED \<rparr>,
                                    asdu)) \<rparr>,
                               Some (entryTimestamp entryInfo, entryPtr, entry_size entryInfo, asdu)))
                  else Some (self, None)))
      else Some (self, None))"

text \<open>
  The loop of \<^verbatim>\<open>MessageQueue_setWaitingForTransmissionWhenNotConfirmed\<close>
  (\<^verbatim>\<open>while (entryPtr)\<close>). The loop changes the local copy \<^verbatim>\<open>entryInfo\<close> only:
  the source has no \<^verbatim>\<open>memcpy\<close> from the copy back to \<^verbatim>\<open>entryPtr\<close>. The value
  is the copy the loop ends with.
\<close>

partial_function (option) setWaiting_loop ::
  "sMessageQueue \<Rightarrow> nat \<Rightarrow> sMessageQueueEntryInfo \<Rightarrow> sMessageQueueEntryInfo option" where
  "setWaiting_loop self entryPtr entryInfo =
     (if entryPtr \<noteq> 0 then
        (let entryInfo' =
               (if entryState entryInfo = QUEUE_ENTRY_STATE_SENT_BUT_NOT_CONFIRMED
                then entryInfo\<lparr> entryState := QUEUE_ENTRY_STATE_WAITING_FOR_TRANSMISSION \<rparr>
                else entryInfo) in
         if entryPtr = lastEntry self then Some entryInfo'
         else
           (case mem self (if entryPtr = lastInBufferEntry self then buffer self
                           else entryPtr + sizeof_sMessageQueueEntryInfo + entry_size entryInfo') of
              None \<Rightarrow> None
            | Some (nextInfo, asdu) \<Rightarrow>
                setWaiting_loop self
                  (if entryPtr = lastInBufferEntry self then buffer self
                   else entryPtr + sizeof_sMessageQueueEntryInfo + entry_size entryInfo')
                  nextInfo))
      else Some entryInfo)"

declare setWaiting_loop.simps [code]

definition MessageQueue_setWaitingForTransmissionWhenNotConfirmed ::
  "sMessageQueue \<Rightarrow> sMessageQueue option" where
  "MessageQueue_setWaitingForTransmissionWhenNotConfirmed self =
     (if entryCounter self \<noteq> 0 then
        (case mem self (firstEntry self) of
           None \<Rightarrow> None
         | Some (entryInfo, asdu) \<Rightarrow>
             (case setWaiting_loop self (firstEntry self) entryInfo of
                None \<Rightarrow> None
              | Some lastCopy \<Rightarrow> Some self))
      else Some self)"

text \<open>\<^verbatim>\<open>MessageQueue_releaseAllQueuedASDUs\<close>.\<close>

definition MessageQueue_releaseAllQueuedASDUs :: "sMessageQueue \<Rightarrow> sMessageQueue" where
  "MessageQueue_releaseAllQueuedASDUs self =
     self\<lparr> firstEntry := 0, lastEntry := 0, lastInBufferEntry := 0, entryCounter := 0 \<rparr>"

text \<open>
  \<^verbatim>\<open>MessageQueue_markAsduAsConfirmed\<close>. Inside both tests the source copies the
  header at \<^verbatim>\<open>queueEntry\<close> into the local \<^verbatim>\<open>entryInfo\<close> and sets the state of
  the copy; the copy is dropped when the block ends.
\<close>

definition MessageQueue_markAsduAsConfirmed ::
  "sMessageQueue \<Rightarrow> nat \<Rightarrow> uint64_t \<Rightarrow> sMessageQueue" where
  "MessageQueue_markAsduAsConfirmed self queueEntry timestamp =
     (if entryCounter self > 0 then
        (if timestamp \<ge> oldestTimestamp self then
           (case mem self queueEntry of
              None \<Rightarrow> self
            | Some (entryInfo, asdu) \<Rightarrow>
                (let localCopy = entryInfo\<lparr> entryState := QUEUE_ENTRY_STATE_NOT_USED_OR_CONFIRMED \<rparr>
                 in self))
         else self)
      else self)"

section \<open>CS 104 slave: master connections\<close>

text \<open>
  Modelled from the spec: the socket primitive is an external collaborator with the
  contract \<^verbatim>\<open>read(buf,n) -> bytes | 0 | -1\<close> and \<^verbatim>\<open>write(buf,n) -> bytes | -1\<close>.
  The model of a socket holds the bytes that have arrived and can be read without
  waiting (\<open>readable\<close>), whether reading fails (\<open>readBroken\<close>), the value the
  \<open>n\<close>-th call of \<^verbatim>\<open>Socket_write\<close> returns (\<open>writeResults\<close>), and the buffers
  handed to \<^verbatim>\<open>Socket_write\<close> so far, oldest first (\<open>writeCalls\<close>).
\<close>

record sSocket =
  readable :: "byte list"
  readBroken :: bool
  writeResults :: "nat \<Rightarrow> int"
  writeCalls :: "byte list list"

definition Socket_read :: "sSocket \<Rightarrow> int \<Rightarrow> int \<times> byte list \<times> sSocket" where
  "Socket_read sock n =
     (if readBroken sock then (- 1, [], sock)
      else (int (length (take (nat n) (readable sock))),
            take (nat n) (readable sock),
            sock\<lparr> readable := drop (nat n) (readable sock) \<rparr>))"

definition Socket_write :: "sSocket \<Rightarrow> byte list \<Rightarrow> int \<times> sSocket" where
  "Socket_write sock buf =
     (writeResults sock (length (writeCalls sock)),
      sock\<lparr> writeCalls := writeCalls sock @ [buf] \<rparr>)"

text \<open>\<^verbatim>\<open>struct sCS104_APCIParameters\<close> (fields \<^verbatim>\<open>k, w, t0, t1, t2, t3\<close>).\<close>

record sCS104_APCIParameters =
  apci_k :: int
  apci_w :: int
  apci_t0 :: int
  apci_t1 :: int
  apci_t2 :: int
  apci_t3 :: int

definition defaultConnectionParameters :: sCS104_APCIParameters where
  "defaultConnectionParameters =
     \<lparr> apci_k = 12, apci_w = 8, apci_t0 = 10, apci_t1 = 15, apci_t2 = 10, apci_t3 = 20 \<rparr>"

text \<open>\<^verbatim>\<open>SentASDUSlave\<close>: one slot of the k-buffer; \<open>queueEntry = 0\<close> is \<^verbatim>\<open>NULL\<close>.\<close>

record SentASDUSlave =
  entryTime :: uint64_t
  queueEntry :: nat
  sentTime :: uint64_t
  seqNo :: int

text \<open>
  \<^verbatim>\<open>struct sMasterConnection\<close>. The bit fields are numbers, and every assignment
  below writes the reduction the field width imposes where the assigned value can
  exceed it. \<open>lowPrioQueue\<close>, \<open>highPrioQueue\<close> and \<open>redundancyGroup\<close> are the
  addresses of the objects the connection is bound to. The back pointer
  \<^verbatim>\<open>self->slave\<close> is not a field: the functions that read
  \<^verbatim>\<open>self->slave->conParameters\<close> take the parameters as an argument. The TLS socket
  and the calls of the application's event and raw-message handlers are left out.
\<close>

record sMasterConnection =
  socket :: sSocket
  isUsed :: bool
  isActive :: bool
  isRunning :: bool
  timeoutT2Triggered :: bool
  outstandingTestFRConMessages :: nat
  maxSentASDUs :: nat
  oldestSentASDU :: int
  newestSentASDU :: int
  sendCount :: nat
  receiveCount :: nat
  unconfirmedReceivedIMessages :: int
  lastConfirmationTime :: uint64_t
  nextT3Timeout :: uint64_t
  sentASDUs :: "SentASDUSlave list"
  recvBuffer :: "byte list"
  recvBufPos :: int
  lowPrioQueue :: nat
  highPrioQueue :: nat
  redundancyGroup :: nat

definition UINT64_MAX :: uint64_t where
  "UINT64_MAX = - 1"

definition STARTDT_CON_MSG :: "byte list" where
  "STARTDT_CON_MSG = [0x68, 0x04, 0x0b, 0x00, 0x00, 0x00]"

definition STOPDT_CON_MSG :: "byte list" where
  "STOPDT_CON_MSG = [0x68, 0x04, 0x23, 0x00, 0x00, 0x00]"

definition TESTFR_CON_MSG :: "byte list" where
  "TESTFR_CON_MSG = [0x68, 0x04, 0x83, 0x00, 0x00, 0x00]"

definition TESTFR_ACT_MSG :: "byte list" where
  "TESTFR_ACT_MSG = [0x68, 0x04, 0x43, 0x00, 0x00, 0x00]"

text \<open>
  \<^verbatim>\<open>readFromSocket(self, buffer + off, size)\<close> with \<^verbatim>\<open>buffer = self->recvBuffer\<close>:
  the bytes read are placed at offset \<open>off\<close> of the receive buffer.
\<close>

definition readFromSocket :: "sMasterConnection \<Rightarrow> nat \<Rightarrow> int \<Rightarrow> int \<times> sMasterConnection" where
  "readFromSocket self off n =
     (case Socket_read (socket self) n of
        (cnt, bytes, sock) \<Rightarrow>
          (cnt, self\<lparr> socket := sock,
                      recvBuffer := take off (recvBuffer self) @ bytes
                                     @ drop (off + length bytes) (recvBuffer self) \<rparr>))"

text \<open>
  \<^verbatim>\<open>receiveMessage\<close>. \<open>Inl\<close> carries the result of an early \<^verbatim>\<open>return\<close> out of one
  of the first two stages.
\<close>

definition receiveMessage :: "sMasterConnection \<Rightarrow> int \<times> sMasterConnection" where
  "receiveMessage self =
     (case (if recvBufPos self = 0 then
              (case readFromSocket self 0 1 of
                 (readFirst, self1) \<Rightarrow>
                   if readFirst < 1 then Inl (readFirst, self1)
                   else if recvBuffer self1 ! 0 \<noteq> 0x68 then Inl (- 1, self1)
                   else Inr (recvBufPos self + 1, self1))
            else Inr (recvBufPos self, self)) of
        Inl r \<Rightarrow> r
      | Inr (bufPos1, self1) \<Rightarrow>
          (case (if bufPos1 = 1 then
                   (case readFromSocket self1 1 1 of
                      (cnt, self2) \<Rightarrow>
                        if cnt \<noteq> 1 then Inl (- 1, self2\<lparr> recvBufPos := 0 \<rparr>)
                        else Inr (bufPos1 + 1, self2))
                 else Inr (bufPos1, self1)) of
             Inl r \<Rightarrow> r
           | Inr (bufPos, self2) \<Rightarrow>
               if bufPos > 1 then
                 (let len = uint (recvBuffer self2 ! 1);
                      remainingLength = len - bufPos + 2 in
                  case readFromSocket self2 (nat bufPos) remainingLength of
                    (readCnt, self3) \<Rightarrow>
                      if readCnt = remainingLength then (len + 2, self3\<lparr> recvBufPos := 0 \<rparr>)
                      else if readCnt = - 1 then (- 1, self3\<lparr> recvBufPos := 0 \<rparr>)
                      else (0, self3\<lparr> recvBufPos := bufPos + readCnt \<rparr>))
               else (0, self2\<lparr> recvBufPos := bufPos \<rparr>)))"

definition writeToSocket :: "sMasterConnection \<Rightarrow> byte list \<Rightarrow> int \<times> sMasterConnection" where
  "writeToSocket self buf =
     (case Socket_write (socket self) buf of (r, sock) \<Rightarrow> (r, self\<lparr> socket := sock \<rparr>))"

text \<open>
  \<^verbatim>\<open>sendIMessage\<close>: the six header bytes are written into the buffer \<open>buf\<close>, the first
  \<open>msgSize\<close> bytes go to the socket. The value is the function's result
  (\<^verbatim>\<open>self->sendCount\<close> on return) and the connection afterwards.
\<close>

definition sendIMessage :: "sMasterConnection \<Rightarrow> byte list \<Rightarrow> int \<Rightarrow> int \<times> sMasterConnection" where
  "sendIMessage self buf msgSize =
     (let buffer1 = buf[0 := 0x68,
                           1 := word_of_int (msgSize - 2),
                           2 := of_nat ((sendCount self mod 128) * 2),
                           3 := of_nat (sendCount self div 128),
                           4 := of_nat ((receiveCount self mod 128) * 2),
                           5 := of_nat (receiveCount self div 128)] in
      case writeToSocket self (take (nat msgSize) buffer1) of
        (r, self1) \<Rightarrow>
          (let self2 = (if r > 0
                        then self1\<lparr> sendCount := (sendCount self1 + 1) mod 32768,
                                    unconfirmedReceivedIMessages := 0,
                                    timeoutT2Triggered := False \<rparr>
                        else self1\<lparr> isRunning := False \<rparr>);
               self3 = self2\<lparr> unconfirmedReceivedIMessages := 0 \<rparr>
           in (int (sendCount self3), self3)))"

definition isSentBufferFull :: "sMasterConnection \<Rightarrow> bool" where
  "isSentBufferFull self =
     (if oldestSentASDU self = - 1 then False
      else (newestSentASDU self + 1) smod int (maxSentASDUs self) = oldestSentASDU self)"

text \<open>\<^verbatim>\<open>sendASDU\<close>; \<open>now\<close> is the value of \<^verbatim>\<open>Hal_getTimeInMs()\<close>.\<close>

definition sendASDU ::
  "uint64_t \<Rightarrow> sMasterConnection \<Rightarrow> byte list \<Rightarrow> int \<Rightarrow> uint64_t \<Rightarrow> nat \<Rightarrow> sMasterConnection" where
  "sendASDU now self buf msgSize timestamp entry =
     (let (self1, currentIndex) =
            (if oldestSentASDU self = - 1
             then (self\<lparr> oldestSentASDU := 0, newestSentASDU := 0 \<rparr>, 0)
             else (self, (newestSentASDU self + 1) smod int (maxSentASDUs self))) in
      case sendIMessage self1 buf msgSize of
        (sent, self2) \<Rightarrow>
          self2\<lparr> sentASDUs := (sentASDUs self2)[nat currentIndex :=
                     \<lparr> entryTime = timestamp, queueEntry = entry, sentTime = now, seqNo = sent \<rparr>],
                 newestSentASDU := currentIndex \<rparr>)"

text \<open>
  \<^verbatim>\<open>sendNextLowPriorityASDU\<close> on the connection \<open>self\<close> and its low-priority queue
  \<open>q\<close>. The ASDU is copied into \<^verbatim>\<open>self->sendBuffer\<close> behind the six bytes of the
  header, which \<^verbatim>\<open>sendIMessage\<close> fills in; \<open>entry\<close> is the variable
  \<^verbatim>\<open>queueEntry\<close> of the source. \<open>None\<close> when the queue reads a header that was never
  written.
\<close>

definition sendNextLowPriorityASDU ::
  "uint64_t \<Rightarrow> sMasterConnection \<Rightarrow> sMessageQueue \<Rightarrow> (sMasterConnection \<times> sMessageQueue) option" where
  "sendNextLowPriorityASDU now self q =
     (if isSentBufferFull self then Some (self, q)
      else
        (case MessageQueue_getNextWaitingASDU q of
           None \<Rightarrow> None
         | Some (q1, None) \<Rightarrow> Some (self, q1)
         | Some (q1, Some (timestamp, entry, msgSize, asdu)) \<Rightarrow>
             Some (sendASDU now self ([0, 0, 0, 0, 0, 0] @ asdu)
                     (int msgSize + int IEC60870_5_104_APCI_LENGTH) timestamp entry,
                   q1)))"

text \<open>\<^verbatim>\<open>sendSMessage\<close>.\<close>

definition sendSMessage :: "sMasterConnection \<Rightarrow> sMasterConnection" where
  "sendSMessage self =
     (case writeToSocket self
             [0x68, 0x04, 0x01, 0,
              of_nat ((receiveCount self mod 128) * 2),
              of_nat (receiveCount self div 128)] of
        (r, self1) \<Rightarrow> if r < 0 then self1\<lparr> isRunning := False \<rparr> else self1)"

text \<open>
  The C expression \<^verbatim>\<open>(uint64_t) (t * 1000)\<close> for a parameter \<open>t\<close> of type \<^verbatim>\<open>int\<close>
  (\<^verbatim>\<open>t1\<close>, \<^verbatim>\<open>t2\<close>, \<^verbatim>\<open>t3\<close>, in seconds): the product is taken in 32-bit \<^verbatim>\<open>int\<close>,
  written out here as the two's-complement wrap for a product outside the range of
  \<^verbatim>\<open>int\<close>, and the conversion to \<^verbatim>\<open>uint64_t\<close> extends its sign.
\<close>

definition ms_uint64 :: "int \<Rightarrow> uint64_t" where
  "ms_uint64 t = word_of_int (sint (word_of_int (t * 1000) :: 32 word))"

text \<open>
  \<^verbatim>\<open>resetT3Timeout\<close> and \<^verbatim>\<open>checkT3Timeout\<close>; the sum wraps as \<^verbatim>\<open>uint64_t\<close> does.
\<close>

definition resetT3Timeout ::
  "sCS104_APCIParameters \<Rightarrow> sMasterConnection \<Rightarrow> uint64_t \<Rightarrow> sMasterConnection" where
  "resetT3Timeout params self currentTime =
     self\<lparr> nextT3Timeout := currentTime + ms_uint64 (apci_t3 params) \<rparr>"

definition checkT3Timeout ::
  "sCS104_APCIParameters \<Rightarrow> sMasterConnection \<Rightarrow> uint64_t \<Rightarrow> bool \<times> sMasterConnection" where
  "checkT3Timeout params self currentTime =
     (let self1 = (if nextT3Timeout self > currentTime + ms_uint64 (apci_t3 params)
                   then resetT3Timeout params self currentTime
                   else self)
      in (currentTime > nextT3Timeout self1, self1))"

text \<open>
  \<^verbatim>\<open>handleTimeouts\<close>; \<open>currentTime\<close> is the value of \<^verbatim>\<open>Hal_getTimeInMs()\<close>. The three
  parts are the T3 check, the T2 check and the T1 check of the source, in this order.
\<close>

definition handleTimeouts_T3 ::
  "sCS104_APCIParameters \<Rightarrow> uint64_t \<Rightarrow> sMasterConnection \<Rightarrow> bool \<times> sMasterConnection" where
  "handleTimeouts_T3 params currentTime self =
     (case checkT3Timeout params self currentTime of
        (expired, self1) \<Rightarrow>
          if expired then
            (if outstandingTestFRConMessages self1 > 2 then (False, self1)
             else
               (case writeToSocket self1 TESTFR_ACT_MSG of
                  (r, self2) \<Rightarrow>
                    (let self3 = (if r < 0 then self2\<lparr> isRunning := False \<rparr> else self2);
                         self4 = self3\<lparr> outstandingTestFRConMessages :=
                                          (outstandingTestFRConMessages self3 + 1) mod 8 \<rparr>
                     in (True, resetT3Timeout params self4 currentTime))))
          else (True, self1))"

definition handleTimeouts_T2 ::
  "sCS104_APCIParameters \<Rightarrow> uint64_t \<Rightarrow> sMasterConnection \<Rightarrow> sMasterConnection" where
  "handleTimeouts_T2 params currentTime self =
     (if unconfirmedReceivedIMessages self > 0 then
        (let self1 = (if lastConfirmationTime self \<noteq> UINT64_MAX
                         \<and> lastConfirmationTime self > currentTime
                      then self\<lparr> lastConfirmationTime := currentTime \<rparr>
                      else self)
         in if currentTime > lastConfirmationTime self1 then
              (if currentTime - lastConfirmationTime self1
                    \<ge> ms_uint64 (apci_t2 params)
               then sendSMessage (self1\<lparr> lastConfirmationTime := currentTime,
                                         unconfirmedReceivedIMessages := 0,
                                         timeoutT2Triggered := False \<rparr>)
               else self1)
            else self1)
      else self)"

definition handleTimeouts_T1 ::
  "sCS104_APCIParameters \<Rightarrow> uint64_t \<Rightarrow> bool \<Rightarrow> sMasterConnection \<Rightarrow> bool \<times> sMasterConnection" where
  "handleTimeouts_T1 params currentTime timeoutsOk self =
     (if oldestSentASDU self \<noteq> - 1 then
        (if currentTime > sentTime (sentASDUs self ! nat (oldestSentASDU self)) then
           (let self1 = (if sentTime (sentASDUs self ! nat (oldestSentASDU self)) > currentTime
                         then self\<lparr> sentASDUs := (sentASDUs self)[nat (oldestSentASDU self) :=
                                   (sentASDUs self ! nat (oldestSentASDU self))
                                     \<lparr> sentTime := currentTime \<rparr>] \<rparr>
                         else self)
            in if currentTime - sentTime (sentASDUs self1 ! nat (oldestSentASDU self1))
                    \<ge> ms_uint64 (apci_t1 params)
               then (False, self1)
               else (timeoutsOk, self1))
         else (timeoutsOk, self))
      else (timeoutsOk, self))"

definition handleTimeouts ::
  "sCS104_APCIParameters \<Rightarrow> uint64_t \<Rightarrow> sMasterConnection \<Rightarrow> bool \<times> sMasterConnection" where
  "handleTimeouts params currentTime self =
     (case handleTimeouts_T3 params currentTime self of
        (timeoutsOk, self1) \<Rightarrow>
          handleTimeouts_T1 params currentTime timeoutsOk
            (handleTimeouts_T2 params currentTime self1))"

text \<open>
  The \<^verbatim>\<open>do ... while (true)\<close> loop of \<^verbatim>\<open>checkSequenceNumber\<close>. The call
  \<^verbatim>\<open>MessageQueue_markAsduAsConfirmed(self->lowPrioQueue, queueEntry, entryTime)\<close> is
  the argument \<open>markAsduAsConfirmed\<close>, applied to the queue \<open>q\<close>, so that a
  statement about the loop can say which calls it makes; \<open>rcvSeqNo\<close> is the
  parameter \<^verbatim>\<open>seqNo\<close> of the source.
\<close>

partial_function (option) checkSequenceNumber_loop ::
  "('q \<Rightarrow> nat \<Rightarrow> uint64_t \<Rightarrow> 'q) \<Rightarrow> bool \<Rightarrow> int \<Rightarrow> int \<Rightarrow> sMasterConnection \<Rightarrow> 'q
   \<Rightarrow> (sMasterConnection \<times> 'q) option" where
  "checkSequenceNumber_loop markAsduAsConfirmed counterOverflowDetected rcvSeqNo oldestValidSeqNo self q =
     (let oldestAsduSeqNo = seqNo (sentASDUs self ! nat (oldestSentASDU self)) in
      if \<not> counterOverflowDetected \<and> rcvSeqNo < oldestAsduSeqNo then Some (self, q)
      else if rcvSeqNo = oldestValidSeqNo then Some (self, q)
      else
        (let q1 = (if queueEntry (sentASDUs self ! nat (oldestSentASDU self)) \<noteq> 0
                   then markAsduAsConfirmed q
                          (queueEntry (sentASDUs self ! nat (oldestSentASDU self)))
                          (entryTime (sentASDUs self ! nat (oldestSentASDU self)))
                   else q) in
         if oldestAsduSeqNo = rcvSeqNo then
           (if oldestSentASDU self = newestSentASDU self
            then Some (self\<lparr> oldestSentASDU := - 1 \<rparr>, q1)
            else Some (self\<lparr> oldestSentASDU :=
                              (oldestSentASDU self + 1) smod int (maxSentASDUs self) \<rparr>, q1))
         else
           (let self1 = self\<lparr> oldestSentASDU :=
                              (oldestSentASDU self + 1) smod int (maxSentASDUs self) \<rparr>;
                checkIndex = (newestSentASDU self1 + 1) smod int (maxSentASDUs self1) in
            if oldestSentASDU self1 = checkIndex
            then Some (self1\<lparr> oldestSentASDU := - 1 \<rparr>, q1)
            else checkSequenceNumber_loop markAsduAsConfirmed counterOverflowDetected
                   rcvSeqNo oldestValidSeqNo self1 q1)))"

declare checkSequenceNumber_loop.simps [code]

text \<open>
  \<^verbatim>\<open>checkSequenceNumber\<close>: the result \<^verbatim>\<open>seqNoIsValid\<close>, the connection and the
  low-priority queue afterwards.
\<close>

definition checkSequenceNumber ::
  "('q \<Rightarrow> nat \<Rightarrow> uint64_t \<Rightarrow> 'q) \<Rightarrow> sMasterConnection \<Rightarrow> 'q \<Rightarrow> int
   \<Rightarrow> (bool \<times> sMasterConnection \<times> 'q) option" where
  "checkSequenceNumber markAsduAsConfirmed self q rcvSeqNo =
     (case (if oldestSentASDU self = - 1
            then (rcvSeqNo = int (sendCount self), False, - 1)
            else
              (let oldestAsduSeqNo = seqNo (sentASDUs self ! nat (oldestSentASDU self));
                   newestAsduSeqNo = seqNo (sentASDUs self ! nat (newestSentASDU self));
                   inRange = (if oldestAsduSeqNo \<le> newestAsduSeqNo
                              then rcvSeqNo \<ge> oldestAsduSeqNo \<and> rcvSeqNo \<le> newestAsduSeqNo
                              else rcvSeqNo \<ge> oldestAsduSeqNo \<or> rcvSeqNo \<le> newestAsduSeqNo);
                   oldestValidSeqNo = (if oldestAsduSeqNo = 0 then 32767
                                       else (oldestAsduSeqNo - 1) smod 32768)
               in (inRange \<or> oldestValidSeqNo = rcvSeqNo,
                   \<not> oldestAsduSeqNo \<le> newestAsduSeqNo,
                   oldestValidSeqNo))) of
        (seqNoIsValid, counterOverflowDetected, oldestValidSeqNo) \<Rightarrow>
          if seqNoIsValid then
            (if oldestSentASDU self \<noteq> - 1 then
               (case checkSequenceNumber_loop markAsduAsConfirmed counterOverflowDetected
                       rcvSeqNo oldestValidSeqNo self q of
                  None \<Rightarrow> None
                | Some (self1, q1) \<Rightarrow> Some (True, self1, q1))
             else Some (True, self, q))
          else Some (False, self, q))"

text \<open>
  The k-buffer as a sequence: with \<^verbatim>\<open>oldestSentASDU\<close> other than \<open>-1\<close>, the entries in
  flight are the \<open>kbuf_count\<close> slots \<open>kbuf_slot 0, kbuf_slot 1, \<dots>\<close> from
  \<^verbatim>\<open>oldestSentASDU\<close> round to \<^verbatim>\<open>newestSentASDU\<close>. \<open>kbuf_wf\<close> is what \<^verbatim>\<open>sendASDU\<close>
  and \<^verbatim>\<open>sendIMessage\<close> maintain as long as writes succeed (lemmas
  \<open>sendASDU_starts_kbuf\<close> and \<open>sendASDU_keeps_kbuf\<close>): the indices are inside
  the array, fewer than 32768 frames are in flight, and the sequence numbers stored
  are consecutive modulo 32768, starting from a value in \<open>[0, 32768)\<close>.
\<close>

definition kbuf_slot :: "sMasterConnection \<Rightarrow> nat \<Rightarrow> nat" where
  "kbuf_slot self i = nat ((oldestSentASDU self + int i) mod int (maxSentASDUs self))"

definition kbuf_count :: "sMasterConnection \<Rightarrow> nat" where
  "kbuf_count self =
     nat ((newestSentASDU self - oldestSentASDU self) mod int (maxSentASDUs self)) + 1"

definition kbuf_entry :: "sMasterConnection \<Rightarrow> nat \<Rightarrow> SentASDUSlave" where
  "kbuf_entry self i = sentASDUs self ! kbuf_slot self i"

definition kbuf_wf :: "sMasterConnection \<Rightarrow> bool" where
  "kbuf_wf self \<longleftrightarrow>
     0 < maxSentASDUs self \<and> maxSentASDUs self \<le> length (sentASDUs self) \<and>
     0 \<le> oldestSentASDU self \<and> oldestSentASDU self < int (maxSentASDUs self) \<and>
     0 \<le> newestSentASDU self \<and> newestSentASDU self < int (maxSentASDUs self) \<and>
     kbuf_count self < 32768 \<and>
     0 \<le> seqNo (kbuf_entry self 0) \<and> seqNo (kbuf_entry self 0) < 32768 \<and>
     list_all (\<lambda>i. seqNo (kbuf_entry self i) = (seqNo (kbuf_entry self 0) + int i) mod 32768)
       [0..<kbuf_count self]"

text \<open>
  The calls \<^verbatim>\<open>MessageQueue_markAsduAsConfirmed(queue, e.queueEntry, e.entryTime)\<close> for
  the entries \<open>es\<close> with a pointer other than \<^verbatim>\<open>NULL\<close>, in order.
\<close>

definition confirm_calls ::
  "('q \<Rightarrow> nat \<Rightarrow> uint64_t \<Rightarrow> 'q) \<Rightarrow> 'q \<Rightarrow> SentASDUSlave list \<Rightarrow> 'q" where
  "confirm_calls markAsduAsConfirmed q es =
     foldl (\<lambda>q e. markAsduAsConfirmed q (queueEntry e) (entryTime e)) q
       (filter (\<lambda>e. queueEntry e \<noteq> 0) es)"

text \<open>
  The validity of a received sequence number in the words of the specification
  (section 4.4, sequence-number check).
\<close>

definition seqNo_valid_spec :: "sMasterConnection \<Rightarrow> int \<Rightarrow> bool" where
  "seqNo_valid_spec self rcvSeqNo \<longleftrightarrow>
     (if oldestSentASDU self = - 1 then rcvSeqNo = int (sendCount self)
      else
        (let old = seqNo (sentASDUs self ! nat (oldestSentASDU self));
             new = seqNo (sentASDUs self ! nat (newestSentASDU self))
         in (old \<le> new \<and> old \<le> rcvSeqNo \<and> rcvSeqNo \<le> new)
            \<or> (old > new \<and> (rcvSeqNo \<ge> old \<or> rcvSeqNo \<le> new))
            \<or> rcvSeqNo = (old - 1) mod 32768))"

section \<open>CS 104 slave: the server and its connection table\<close>

datatype CS104_ServerMode =
    CS104_MODE_SINGLE_REDUNDANCY_GROUP
  | CS104_MODE_CONNECTION_IS_REDUNDANCY_GROUP
  | CS104_MODE_MULTIPLE_REDUNDANCY_GROUPS

text \<open>
  \<^verbatim>\<open>struct sHighPriorityASDUQueue\<close>, with the fields prefixed by \<open>hp_\<close>; of its
  operations only the reset is needed below.
\<close>

record sHighPriorityASDUQueue =
  hp_size :: nat
  hp_entryCounter :: int
  hp_firstEntry :: nat
  hp_lastEntry :: nat
  hp_lastInBufferEntry :: nat
  hp_buffer :: nat

definition HighPriorityASDUQueue_resetConnectionQueue ::
  "sHighPriorityASDUQueue \<Rightarrow> sHighPriorityASDUQueue" where
  "HighPriorityASDUQueue_resetConnectionQueue self =
     self\<lparr> hp_firstEntry := 0, hp_lastEntry := 0, hp_lastInBufferEntry := 0,
            hp_entryCounter := 0 \<rparr>"

text \<open>
  \<^verbatim>\<open>struct sCS104_Slave\<close>, as far as the functions below read it. The table
  \<^verbatim>\<open>masterConnections\<close> has \<^verbatim>\<open>CONFIG_CS104_MAX_CLIENT_CONNECTIONS\<close> slots (the macro
  is not part of the sources at hand: the length of the list), each \<^verbatim>\<open>NULL\<close>
  (\<open>None\<close>) or the connection object \<^verbatim>\<open>createSlave\<close> put there. A
  \<^verbatim>\<open>MasterConnection\<close> pointer is modelled by the index of its slot. The queue
  objects the connections point to are kept in two stores keyed by address.
\<close>

record sCS104_Slave =
  openConnections :: int
  masterConnections :: "sMasterConnection option list"
  conParameters :: sCS104_APCIParameters
  serverMode :: CS104_ServerMode
  messageQueues :: "nat \<Rightarrow> sMessageQueue option"
  highPriorityQueues :: "nat \<Rightarrow> sHighPriorityASDUQueue option"

definition setConnection :: "sCS104_Slave \<Rightarrow> nat \<Rightarrow> sMasterConnection \<Rightarrow> sCS104_Slave" where
  "setConnection slave i con =
     slave\<lparr> masterConnections := (masterConnections slave)[i := Some con] \<rparr>"

definition updateConnection ::
  "sCS104_Slave \<Rightarrow> nat \<Rightarrow> (sMasterConnection \<Rightarrow> sMasterConnection) \<Rightarrow> sCS104_Slave" where
  "updateConnection slave i f =
     slave\<lparr> masterConnections :=
              (masterConnections slave)[i := map_option f (masterConnections slave ! i)] \<rparr>"

definition MasterConnection_deactivate :: "sMasterConnection \<Rightarrow> sMasterConnection" where
  "MasterConnection_deactivate self = self\<lparr> isActive := False \<rparr>"

definition MasterConnection_activate :: "sMasterConnection \<Rightarrow> sMasterConnection" where
  "MasterConnection_activate self = self\<lparr> isActive := True \<rparr>"

text \<open>
  \<^verbatim>\<open>CS104_Slave_activate\<close>, with all three server modes compiled in, in the two
  parts a thread runs one after the other. The first part is the statements up to
  the last \<^verbatim>\<open>Semaphore_post(self->openConnectionsLock)\<close>: the two loops over the slots
  of the table, which deactivate the peers while the lock is held. The second part is
  the last statement, \<^verbatim>\<open>MasterConnection_activate(connectionToActivate)\<close>, which runs
  after the lock has been released. The value is \<open>None\<close> when
  \<open>connectionToActivate\<close> is not a connection object of the table.
\<close>

definition CS104_Slave_activate_peers :: "sCS104_Slave \<Rightarrow> nat \<Rightarrow> sCS104_Slave option" where
  "CS104_Slave_activate_peers self connectionToActivate =
     (if \<not> connectionToActivate < length (masterConnections self) then None
      else
        (case masterConnections self ! connectionToActivate of
           None \<Rightarrow> None
         | Some target \<Rightarrow>
             (let self1 =
                    (if serverMode self = CS104_MODE_SINGLE_REDUNDANCY_GROUP then
                       self\<lparr> masterConnections :=
                         map (\<lambda>(i, slot).
                                (case slot of
                                   None \<Rightarrow> None
                                 | Some con \<Rightarrow>
                                     if i \<noteq> connectionToActivate
                                     then Some (MasterConnection_deactivate con)
                                     else Some con))
                             (enumerate 0 (masterConnections self)) \<rparr>
                     else self);
                  self2 =
                    (if serverMode self1 = CS104_MODE_MULTIPLE_REDUNDANCY_GROUPS then
                       self1\<lparr> masterConnections :=
                         map (\<lambda>(i, slot).
                                (case slot of
                                   None \<Rightarrow> None
                                 | Some con \<Rightarrow>
                                     if redundancyGroup con = redundancyGroup target then
                                       (if i \<noteq> connectionToActivate
                                        then Some (MasterConnection_deactivate con)
                                        else Some con)
                                     else Some con))
                             (enumerate 0 (masterConnections self1)) \<rparr>
                     else self1)
              in Some self2)))"

definition CS104_Slave_activate_target :: "sCS104_Slave \<Rightarrow> nat \<Rightarrow> sCS104_Slave option" where
  "CS104_Slave_activate_target self connectionToActivate =
     (if \<not> connectionToActivate < length (masterConnections self) then None
      else
        (case masterConnections self ! connectionToActivate of
           None \<Rightarrow> None
         | Some target \<Rightarrow>
             Some (updateConnection self connectionToActivate MasterConnection_activate)))"

text \<open>
  \<^verbatim>\<open>CS104_Slave_activate\<close> as one thread runs it from its first statement to its
  last, with no other thread in between.
\<close>

definition CS104_Slave_activate :: "sCS104_Slave \<Rightarrow> nat \<Rightarrow> sCS104_Slave option" where
  "CS104_Slave_activate self connectionToActivate =
     (case CS104_Slave_activate_peers self connectionToActivate of
        None \<Rightarrow> None
      | Some self2 \<Rightarrow> CS104_Slave_activate_target self2 connectionToActivate)"

text \<open>
  \<^verbatim>\<open>MasterConnection_init\<close> for the connection in slot \<open>self\<close>; \<open>currentTime\<close> is
  the value of \<^verbatim>\<open>Hal_getTimeInMs()\<close>, and \<open>lowQ = 0\<close>, \<open>highQ = 0\<close> are
  \<^verbatim>\<open>NULL\<close> arguments. \<open>None\<close> when a queue the function resets is not an object of
  the store.
\<close>

definition MasterConnection_init ::
  "uint64_t \<Rightarrow> sCS104_Slave \<Rightarrow> nat \<Rightarrow> sSocket \<Rightarrow> nat \<Rightarrow> nat \<Rightarrow> sCS104_Slave option" where
  "MasterConnection_init currentTime slave self skt lowQ highQ =
     (if \<not> self < length (masterConnections slave) then None
      else
        (case masterConnections slave ! self of
           None \<Rightarrow> Some slave
         | Some con \<Rightarrow>
             (let con1 = resetT3Timeout (conParameters slave)
                           (con\<lparr> socket := skt, isActive := False, isRunning := False,
                                 receiveCount := 0, sendCount := 0, recvBufPos := 0,
                                 unconfirmedReceivedIMessages := 0,
                                 lastConfirmationTime := UINT64_MAX,
                                 timeoutT2Triggered := False,
                                 oldestSentASDU := - 1, newestSentASDU := - 1 \<rparr>)
                           currentTime
              in case (if lowQ \<noteq> 0
                       then Some (con1\<lparr> lowPrioQueue := lowQ \<rparr>, messageQueues slave)
                       else (case messageQueues slave (lowPrioQueue con1) of
                               None \<Rightarrow> None
                             | Some q \<Rightarrow>
                                 Some (con1, (messageQueues slave)
                                        (lowPrioQueue con1 \<mapsto> MessageQueue_releaseAllQueuedASDUs q)))) of
                   None \<Rightarrow> None
                 | Some (con2, mqs) \<Rightarrow>
                     (let con3 = (if highQ \<noteq> 0 then con2\<lparr> highPrioQueue := highQ \<rparr> else con2)
                      in case highPriorityQueues slave (highPrioQueue con3) of
                           None \<Rightarrow> None
                         | Some hq \<Rightarrow>
                             Some ((setConnection slave self
                                      (con3\<lparr> outstandingTestFRConMessages := 0 \<rparr>))
                                   \<lparr> messageQueues := mqs,
                                     highPriorityQueues := (highPriorityQueues slave)
                                       (highPrioQueue con3 \<mapsto>
                                          HighPriorityASDUQueue_resetConnectionQueue hq) \<rparr>)))))"

text \<open>
  \<^verbatim>\<open>MasterConnection_initEx\<close>: \<open>redGroup\<close> is the address of the redundancy group,
  \<open>asduQueue\<close> and \<open>connectionAsduQueue\<close> are the queue pointers it holds.
\<close>

definition MasterConnection_initEx ::
  "uint64_t \<Rightarrow> sCS104_Slave \<Rightarrow> nat \<Rightarrow> sSocket \<Rightarrow> nat \<Rightarrow> nat \<Rightarrow> nat \<Rightarrow> sCS104_Slave option" where
  "MasterConnection_initEx currentTime slave self skt redGroup asduQueue connectionAsduQueue =
     (case MasterConnection_init currentTime slave self skt asduQueue connectionAsduQueue of
        None \<Rightarrow> None
      | Some slave1 \<Rightarrow>
          Some (updateConnection slave1 self (\<lambda>con. con\<lparr> redundancyGroup := redGroup \<rparr>)))"

text \<open>
  \<^verbatim>\<open>CS104_Slave_removeConnection\<close>; closing the socket
  (\<^verbatim>\<open>MasterConnection_deinit\<close>) is left out.
\<close>

definition CS104_Slave_removeConnection :: "sCS104_Slave \<Rightarrow> nat \<Rightarrow> sCS104_Slave option" where
  "CS104_Slave_removeConnection self connection =
     (if \<not> connection < length (masterConnections self) then None
      else
        (case masterConnections self ! connection of
           None \<Rightarrow> None
         | Some con \<Rightarrow>
             (let self1 = (setConnection self connection (con\<lparr> isUsed := False \<rparr>))
                            \<lparr> openConnections := openConnections self - 1 \<rparr>
              in if isActive con then
                   (case messageQueues self1 (lowPrioQueue con) of
                      None \<Rightarrow> None
                    | Some q \<Rightarrow>
                        (case MessageQueue_setWaitingForTransmissionWhenNotConfirmed q of
                           None \<Rightarrow> None
                         | Some q1 \<Rightarrow>
                             Some (self1\<lparr> messageQueues :=
                                     (messageQueues self1)(lowPrioQueue con \<mapsto> q1) \<rparr>)))
                 else Some self1)))"

text \<open>
  The I-frame branch of \<^verbatim>\<open>handleMessage\<close> (\<^verbatim>\<open>(buffer[2] & 1) == 0\<close>) for the
  connection \<open>con\<close> in slot \<open>self\<close>. Decoding the ASDU and \<^verbatim>\<open>handleASDU\<close> with
  the application's handlers are outside the sources' core: the argument
  \<open>handleASDU\<close> stands for \<^verbatim>\<open>CS101_ASDU_createFromBuffer\<close> followed by
  \<^verbatim>\<open>handleASDU\<close>, and yields \<open>False\<close> for an invalid or corrupted ASDU.
\<close>

definition handleMessage_I ::
  "(sCS104_Slave \<Rightarrow> nat \<Rightarrow> byte list \<Rightarrow> bool \<times> sCS104_Slave) \<Rightarrow> uint64_t \<Rightarrow> sCS104_Slave
   \<Rightarrow> nat \<Rightarrow> sMasterConnection \<Rightarrow> byte list \<Rightarrow> int \<Rightarrow> (bool \<times> sCS104_Slave) option" where
  "handleMessage_I handleASDU currentTime slave self con buf msgSize =
     (if msgSize < 7 then Some (False, slave)
      else
        (let con1 = (if \<not> timeoutT2Triggered con
                     then con\<lparr> timeoutT2Triggered := True,
                               lastConfirmationTime := currentTime \<rparr>
                     else con);
             frameSendSequenceNumber = (uint (buf ! 3) * 0x100 + uint (buf ! 2 AND 0xfe)) div 2;
             frameRecvSequenceNumber = (uint (buf ! 5) * 0x100 + uint (buf ! 4 AND 0xfe)) div 2
         in if frameSendSequenceNumber \<noteq> int (receiveCount con1)
            then Some (False, setConnection slave self con1)
            else
              (case messageQueues slave (lowPrioQueue con1) of
                 None \<Rightarrow> None
               | Some q \<Rightarrow>
                   (case checkSequenceNumber MessageQueue_markAsduAsConfirmed con1 q
                           frameRecvSequenceNumber of
                      None \<Rightarrow> None
                    | Some (valid, con2, q2) \<Rightarrow>
                        (let slave2 = (setConnection slave self con2)
                                        \<lparr> messageQueues :=
                                            (messageQueues slave)(lowPrioQueue con1 \<mapsto> q2) \<rparr>
                         in if \<not> valid then Some (False, slave2)
                            else
                              (let con3 = con2\<lparr> receiveCount := (receiveCount con2 + 1) mod 32768,
                                                unconfirmedReceivedIMessages :=
                                                  unconfirmedReceivedIMessages con2 + 1 \<rparr>;
                                   slave3 = setConnection slave2 self con3
                               in if isActive con3 then
                                    (case handleASDU slave3 self
                                            (drop 6 (take (nat msgSize) buf)) of
                                       (validAsdu, slave4) \<Rightarrow>
                                         if \<not> validAsdu then Some (False, slave4)
                                         else Some (True, updateConnection slave4 self
                                                (\<lambda>c. resetT3Timeout (conParameters slave4) c
                                                       currentTime)))
                                  else Some (True, setConnection slave3 self
                                               (resetT3Timeout (conParameters slave3) con3
                                                  currentTime))))))))"

text \<open>
  \<^verbatim>\<open>handleMessage\<close> for the connection in slot \<open>self\<close>; \<open>currentTime\<close> is the value
  of \<^verbatim>\<open>Hal_getTimeInMs()\<close>.
\<close>

definition handleMessage ::
  "(sCS104_Slave \<Rightarrow> nat \<Rightarrow> byte list \<Rightarrow> bool \<times> sCS104_Slave) \<Rightarrow> uint64_t \<Rightarrow> sCS104_Slave
   \<Rightarrow> nat \<Rightarrow> byte list \<Rightarrow> int \<Rightarrow> (bool \<times> sCS104_Slave) option" where
  "handleMessage handleASDU currentTime slave self buf msgSize =
     (if \<not> self < length (masterConnections slave) then None
      else
        (case masterConnections slave ! self of
           None \<Rightarrow> None
         | Some con \<Rightarrow>
             if msgSize \<ge> 3 then
               (if buf ! 0 \<noteq> 0x68 then Some (False, slave)
                else if uint (buf ! 1) \<noteq> msgSize - 2 then Some (False, slave)
                else if buf ! 2 AND 1 = 0 then
                  handleMessage_I handleASDU currentTime slave self con buf msgSize
                else if buf ! 2 AND 0x43 = 0x43 then
                  (case writeToSocket con TESTFR_CON_MSG of
                     (r, con1) \<Rightarrow>
                       if r < 0 then Some (False, setConnection slave self con1)
                       else Some (True, setConnection slave self
                                    (resetT3Timeout (conParameters slave) con1 currentTime)))
                else if buf ! 2 AND 0x07 = 0x07 then
                  (case CS104_Slave_activate slave self of
                     None \<Rightarrow> None
                   | Some slave1 \<Rightarrow>
                       (case masterConnections slave1 ! self of
                          None \<Rightarrow> None
                        | Some con1 \<Rightarrow>
                            (case highPriorityQueues slave1 (highPrioQueue con1) of
                               None \<Rightarrow> None
                             | Some hq \<Rightarrow>
                                 (let slave2 = slave1\<lparr> highPriorityQueues :=
                                        (highPriorityQueues slave1)(highPrioQueue con1 \<mapsto>
                                           HighPriorityASDUQueue_resetConnectionQueue hq) \<rparr>
                                  in case writeToSocket con1 STARTDT_CON_MSG of
                                       (r, con2) \<Rightarrow>
                                         if r < 0 then Some (False, setConnection slave2 self con2)
                                         else Some (True, setConnection slave2 self
                                                (resetT3Timeout (conParameters slave2) con2
                                                   currentTime))))))
                else if buf ! 2 AND 0x13 = 0x13 then
                  (case writeToSocket (MasterConnection_deactivate con) STOPDT_CON_MSG of
                     (r, con1) \<Rightarrow>
                       if r < 0 then Some (False, setConnection slave self con1)
                       else Some (True, setConnection slave self
                                    (resetT3Timeout (conParameters slave) con1 currentTime)))
                else if buf ! 2 AND 0x83 = 0x83 then
                  Some (True, setConnection slave self
                          (resetT3Timeout (conParameters slave)
                             (con\<lparr> outstandingTestFRConMessages := 0 \<rparr>) currentTime))
                else if buf ! 2 = 0x01 then
                  (case messageQueues slave (lowPrioQueue con) of
                     None \<Rightarrow> None
                   | Some q \<Rightarrow>
                       (case checkSequenceNumber MessageQueue_markAsduAsConfirmed con q
                               ((uint (buf ! 4) + uint (buf ! 5) * 0x100) div 2) of
                          None \<Rightarrow> None
                        | Some (valid, con1, q1) \<Rightarrow>
                            (let slave1 = (setConnection slave self con1)
                                            \<lparr> messageQueues :=
                                                (messageQueues slave)(lowPrioQueue con \<mapsto> q1) \<rparr>
                             in if \<not> valid then Some (False, slave1)
                                else Some (True, setConnection slave1 self
                                             (resetT3Timeout (conParameters slave1) con1
                                                currentTime)))))
                else Some (True, slave))
             else Some (False, slave)))"

text \<open>
  The statements that follow \<^verbatim>\<open>handleMessage\<close> in
  \<^verbatim>\<open>MasterConnection_handleTcpConnection\<close> (and, word for word, in
  \<^verbatim>\<open>connectionHandlingThread\<close>): the test against \<^verbatim>\<open>conParameters.w\<close>; \<open>now\<close> is
  the value of the second \<^verbatim>\<open>Hal_getTimeInMs()\<close>.
\<close>

definition confirmReceivedIMessages ::
  "sCS104_APCIParameters \<Rightarrow> uint64_t \<Rightarrow> sMasterConnection \<Rightarrow> sMasterConnection" where
  "confirmReceivedIMessages params now self =
     (if unconfirmedReceivedIMessages self \<ge> apci_w params
      then sendSMessage (self\<lparr> lastConfirmationTime := now,
                               unconfirmedReceivedIMessages := 0,
                               timeoutT2Triggered := False \<rparr>)
      else self)"

text \<open>\<^verbatim>\<open>MasterConnection_handleTcpConnection\<close> for the connection in slot \<open>self\<close>.\<close>

definition MasterConnection_handleTcpConnection ::
  "(sCS104_Slave \<Rightarrow> nat \<Rightarrow> byte list \<Rightarrow> bool \<times> sCS104_Slave) \<Rightarrow> uint64_t \<Rightarrow> uint64_t
   \<Rightarrow> sCS104_Slave \<Rightarrow> nat \<Rightarrow> sCS104_Slave option" where
  "MasterConnection_handleTcpConnection handleASDU currentTime now slave self =
     (if \<not> self < length (masterConnections slave) then None
      else
        (case masterConnections slave ! self of
           None \<Rightarrow> None
         | Some con \<Rightarrow>
             (case receiveMessage con of
                (bytesRec, con1) \<Rightarrow>
                  (let con2 = (if bytesRec < 0 then con1\<lparr> isRunning := False \<rparr> else con1);
                       slave1 = setConnection slave self con2
                   in if bytesRec > 0 \<and> isRunning con2 then
                        (case handleMessage handleASDU currentTime slave1 self
                                (recvBuffer con2) bytesRec of
                           None \<Rightarrow> None
                         | Some (ok, slave2) \<Rightarrow>
                             (let slave3 = (if \<not> ok
                                            then updateConnection slave2 self
                                                   (\<lambda>c. c\<lparr> isRunning := False \<rparr>)
                                            else slave2)
                              in Some (updateConnection slave3 self
                                         (confirmReceivedIMessages (conParameters slave3) now))))
                      else Some slave1))))"

text \<open>
  \<^verbatim>\<open>if (handleTimeouts(self) == false) self->isRunning = false;\<close>, the statement of
  \<^verbatim>\<open>connectionHandlingThread\<close> and of \<^verbatim>\<open>MasterConnection_executePeriodicTasks\<close>
  that runs the timers.
\<close>

definition executeTimeouts ::
  "sCS104_APCIParameters \<Rightarrow> uint64_t \<Rightarrow> sMasterConnection \<Rightarrow> sMasterConnection" where
  "executeTimeouts params currentTime self =
     (case handleTimeouts params currentTime self of
        (timeoutsOk, self1) \<Rightarrow> if \<not> timeoutsOk then self1\<lparr> isRunning := False \<rparr> else self1)"

section \<open>Activation among redundant connections\<close>

text \<open>
  The operations of the server on the flags \<^verbatim>\<open>isActive\<close> and the group pointers:
  \<^verbatim>\<open>CS104_Slave_activate\<close> (on STARTDT_ACT), \<^verbatim>\<open>MasterConnection_deactivate\<close> (on
  STOPDT_ACT), \<^verbatim>\<open>MasterConnection_init\<close> and \<^verbatim>\<open>MasterConnection_initEx\<close> (on
  accept). Nothing else in the source assigns \<^verbatim>\<open>isActive\<close> or
  \<^verbatim>\<open>redundancyGroup\<close>: the last rule stands for every other operation of the running
  server, which leaves the server mode (chosen with \<^verbatim>\<open>CS104_Slave_setServerMode\<close> before
  the server is started), the number of slots and both fields of every slot as they are.

  The relation is the server with one thread for all connections
  (\<^verbatim>\<open>CS104_Slave_startThreadless\<close> and \<^verbatim>\<open>CS104_Slave_tick\<close>, where
  \<^verbatim>\<open>handleClientConnections\<close> serves the connections one after the other): every
  operation, \<^verbatim>\<open>CS104_Slave_activate\<close> too, runs to its end before the next one
  starts. With one thread per connection (\<^verbatim>\<open>connectionHandlingThread\<close>) the two parts
  of \<^verbatim>\<open>CS104_Slave_activate\<close> of different threads can alternate; that is
  \<open>scheduled\<close> below.
\<close>

inductive sequential_step :: "sCS104_Slave \<Rightarrow> sCS104_Slave \<Rightarrow> bool" where
  step_activate:
    "CS104_Slave_activate s i = Some s' \<Longrightarrow> sequential_step s s'"
| step_deactivate:
    "i < length (masterConnections s) \<Longrightarrow> masterConnections s ! i = Some con \<Longrightarrow>
     sequential_step s (setConnection s i (MasterConnection_deactivate con))"
| step_init:
    "MasterConnection_init currentTime s i skt lowQ highQ = Some s' \<Longrightarrow> sequential_step s s'"
| step_initEx:
    "MasterConnection_initEx currentTime s i skt redGroup lowQ highQ = Some s' \<Longrightarrow>
     sequential_step s s'"
| step_other:
    "serverMode s' = serverMode s \<Longrightarrow>
     map (map_option (\<lambda>con. (isActive con, redundancyGroup con))) (masterConnections s')
       = map (map_option (\<lambda>con. (isActive con, redundancyGroup con))) (masterConnections s) \<Longrightarrow>
     sequential_step s s'"

text \<open>
  The states the server with one thread can be in: \<^verbatim>\<open>createSlave\<close> fills the table
  with connection objects from \<^verbatim>\<open>GLOBAL_CALLOC\<close>, none of them active; then any
  number of steps.
\<close>

inductive sequential_reachable :: "sCS104_Slave \<Rightarrow> bool" where
  reach_created:
    "list_all (\<lambda>slot. case slot of None \<Rightarrow> True | Some con \<Rightarrow> \<not> isActive con)
       (masterConnections s) \<Longrightarrow> sequential_reachable s"
| reach_step:
    "sequential_reachable s \<Longrightarrow> sequential_step s s' \<Longrightarrow> sequential_reachable s'"

text \<open>
  Two slots are active in the same scope: both hold an active connection and, in
  the mode with several redundancy groups, both belong to the same group.
\<close>

definition active_together :: "sCS104_Slave \<Rightarrow> nat \<Rightarrow> nat \<Rightarrow> bool" where
  "active_together s i j =
     (case (masterConnections s ! i, masterConnections s ! j) of
        (Some ci, Some cj) \<Rightarrow>
          isActive ci \<and> isActive cj \<and>
          (if serverMode s = CS104_MODE_MULTIPLE_REDUNDANCY_GROUPS
           then redundancyGroup ci = redundancyGroup cj else True)
      | other \<Rightarrow> False)"

text \<open>Activation exclusivity: no two different slots are active in the same scope.\<close>

definition activation_exclusive :: "sCS104_Slave \<Rightarrow> bool" where
  "activation_exclusive s =
     list_all (\<lambda>i. list_all (\<lambda>j. \<not> (i \<noteq> j \<and> active_together s i j))
                      [0..<length (masterConnections s)])
              [0..<length (masterConnections s)]"

text \<open>
  A slot was not activated by a step from \<open>s\<close> to \<open>s'\<close>: if it holds an active
  connection afterwards, it held an active connection of the same group before.
\<close>

definition slot_not_activated :: "sCS104_Slave \<Rightarrow> sCS104_Slave \<Rightarrow> nat \<Rightarrow> bool" where
  "slot_not_activated s s' j \<longleftrightarrow>
     (case masterConnections s' ! j of
        None \<Rightarrow> True
      | Some c' \<Rightarrow>
          isActive c' \<longrightarrow>
            (\<exists>c. masterConnections s ! j = Some c \<and> isActive c
                  \<and> redundancyGroup c = redundancyGroup c'))"

section \<open>Runs of the operations and concrete states\<close>

text \<open>Successive calls of \<^verbatim>\<open>MessageQueue_enqueueASDU\<close>, each with its time stamp.\<close>

fun enqueueASDUs :: "(uint64_t \<times> byte list) list \<Rightarrow> sMessageQueue \<Rightarrow> sMessageQueue option" where
  "enqueueASDUs [] q = Some q"
| "enqueueASDUs ((t, asdu) # rest) q =
     (case MessageQueue_enqueueASDU t asdu q of
        None \<Rightarrow> None
      | Some q1 \<Rightarrow> enqueueASDUs rest q1)"

text \<open>Successive calls of \<^verbatim>\<open>CS104_Slave_activate\<close> for the slots listed.\<close>

fun activations :: "nat list \<Rightarrow> sCS104_Slave \<Rightarrow> sCS104_Slave option" where
  "activations [] s = Some s"
| "activations (i # rest) s =
     (case CS104_Slave_activate s i of
        None \<Rightarrow> None
      | Some s1 \<Rightarrow> activations rest s1)"

text \<open>
  Connection threads inside \<^verbatim>\<open>CS104_Slave_activate\<close> at the same time. A schedule
  lists, in the order they run, the parts the threads execute: \<open>ActivatePeers i\<close> is
  the first part of the call for the connection in slot \<open>i\<close> (up to the release of
  the lock), \<open>ActivateTarget i\<close> the second part of that call.
\<close>

datatype activate_part = ActivatePeers nat | ActivateTarget nat

fun scheduled :: "activate_part list \<Rightarrow> sCS104_Slave \<Rightarrow> sCS104_Slave option" where
  "scheduled [] s = Some s"
| "scheduled (ActivatePeers i # rest) s =
     (case CS104_Slave_activate_peers s i of
        None \<Rightarrow> None
      | Some s1 \<Rightarrow> scheduled rest s1)"
| "scheduled (ActivateTarget i # rest) s =
     (case CS104_Slave_activate_target s i of
        None \<Rightarrow> None
      | Some s1 \<Rightarrow> scheduled rest s1)"

text \<open>Successive calls of \<^verbatim>\<open>executeTimeouts\<close> at the times listed.\<close>

fun timeoutRuns :: "sCS104_APCIParameters \<Rightarrow> uint64_t list \<Rightarrow> sMasterConnection \<Rightarrow> sMasterConnection" where
  "timeoutRuns params [] self = self"
| "timeoutRuns params (t # rest) self = timeoutRuns params rest (executeTimeouts params t self)"

text \<open>
  A connection right after \<^verbatim>\<open>MasterConnection_init\<close> at time 0 with the default
  parameters: k = 12, nothing sent or received, every socket write succeeds with 6
  bytes, queues at the addresses 100 and 200.
\<close>

definition ex_connection :: sMasterConnection where
  "ex_connection =
     \<lparr> socket = \<lparr> readable = [], readBroken = False, writeResults = (\<lambda>n. 6), writeCalls = [] \<rparr>,
       isUsed = True, isActive = False, isRunning = True,
       timeoutT2Triggered = False,
       outstandingTestFRConMessages = 0,
       maxSentASDUs = 12,
       oldestSentASDU = - 1, newestSentASDU = - 1,
       sendCount = 0, receiveCount = 0,
       unconfirmedReceivedIMessages = 0,
       lastConfirmationTime = UINT64_MAX,
       nextT3Timeout = 20000,
       sentASDUs = replicate 12 \<lparr> entryTime = 0, queueEntry = 0, sentTime = 0, seqNo = 0 \<rparr>,
       recvBuffer = replicate 260 0,
       recvBufPos = 0,
       lowPrioQueue = 100, highPrioQueue = 200, redundancyGroup = 0 \<rparr>"

text \<open>
  A server in the single-group mode with one slot, holding \<open>con\<close>, whose
  low-priority queue at address 100 is \<open>q\<close>.
\<close>

definition ex_slave :: "sMasterConnection \<Rightarrow> sMessageQueue \<Rightarrow> sCS104_Slave" where
  "ex_slave con q =
     \<lparr> openConnections = 1,
       masterConnections = [Some con],
       conParameters = defaultConnectionParameters,
       serverMode = CS104_MODE_SINGLE_REDUNDANCY_GROUP,
       messageQueues = (\<lambda>a. if a = 100 then Some q else None),
       highPriorityQueues = (\<lambda>a. if a = 200
          then Some \<lparr> hp_size = 258, hp_entryCounter = 0, hp_firstEntry = 0, hp_lastEntry = 0,
                      hp_lastInBufferEntry = 0, hp_buffer = 5000 \<rparr>
          else None) \<rparr>"

text \<open>
  Scenario S6 of the specification up to the drop: a queue of four slots at address
  1000 receives one ASDU at time 5, and the active connection fetches it for
  transmission.
\<close>

definition ex_failover_queue :: "sMessageQueue option" where
  "ex_failover_queue =
     (case MessageQueue_enqueueASDU 5 [0x64, 0x01, 0x06, 0x00] (MessageQueue_initialize 1000 4) of
        None \<Rightarrow> None
      | Some q \<Rightarrow> map_option fst (MessageQueue_getNextWaitingASDU q))"

text \<open>
  Queue pressure: a queue of three slots (816 bytes at address 1000) and seven ASDUs
  of 249, 249, 244, 10, 184, 184 and 184 bytes, enqueued at the times 1 to 7.
\<close>

definition ex_pressure_asdus :: "(uint64_t \<times> byte list) list" where
  "ex_pressure_asdus =
     [(1, replicate 249 0), (2, replicate 249 0), (3, replicate 244 0), (4, replicate 10 0),
      (5, replicate 184 0), (6, replicate 184 0), (7, replicate 184 0)]"

text \<open>What the statements below read off a queue: the counter and the three cursors.\<close>

definition cursors :: "sMessageQueue \<Rightarrow> int \<times> nat \<times> nat \<times> nat" where
  "cursors q = (entryCounter q, firstEntry q, lastEntry q, lastInBufferEntry q)"

text \<open>
  An I-frame sent from the queue: a queue of four slots at address 1000 receives one
  ASDU at time 5, and the active connection sends it at time 10 with
  \<^verbatim>\<open>sendNextLowPriorityASDU\<close>. The frame carries N(S) = 0; the k-buffer entry holds
  the sequence number 1, the entry pointer 1000 and the time stamp 5.
\<close>

definition ex_sent :: "(sMasterConnection \<times> sMessageQueue) option" where
  "ex_sent =
     (case MessageQueue_enqueueASDU 5 [0x64, 0x01, 0x06, 0x00] (MessageQueue_initialize 1000 4) of
        None \<Rightarrow> None
      | Some q \<Rightarrow> sendNextLowPriorityASDU 10 (ex_connection\<lparr> isActive := True \<rparr>) q)"

text \<open>
  A connection with four I-frames in flight: the k-buffer slots 10, 11, 0 and 1 hold
  the sequence numbers 32766, 32767, 0 and 1; the frame in slot 11 did not come from
  the low-priority queue.
\<close>

definition ex_window :: sMasterConnection where
  "ex_window =
     ex_connection
       \<lparr> isActive := True, oldestSentASDU := 10, newestSentASDU := 1, sendCount := 1,
         sentASDUs := (replicate 12 \<lparr> entryTime = 0, queueEntry = 0, sentTime = 0, seqNo = 0 \<rparr>)
           [10 := \<lparr> entryTime = 11, queueEntry = 1000, sentTime = 21, seqNo = 32766 \<rparr>,
            11 := \<lparr> entryTime = 0, queueEntry = 0, sentTime = 22, seqNo = 32767 \<rparr>,
            0 := \<lparr> entryTime = 13, queueEntry = 1020, sentTime = 23, seqNo = 0 \<rparr>,
            1 := \<lparr> entryTime = 14, queueEntry = 1040, sentTime = 24, seqNo = 1 \<rparr>] \<rparr>"

text \<open>
  A server in the mode with several redundancy groups: the slots 0 and 1 belong to
  the group at address 1, slot 2 to the group at address 2; no connection is active.
\<close>

definition ex_groups :: sCS104_Slave where
  "ex_groups =
     (ex_slave ex_connection (MessageQueue_initialize 1000 4))
       \<lparr> openConnections := 3,
         masterConnections := [Some (ex_connection\<lparr> redundancyGroup := 1 \<rparr>),
                               Some (ex_connection\<lparr> redundancyGroup := 1 \<rparr>),
                               Some (ex_connection\<lparr> redundancyGroup := 2 \<rparr>)],
         serverMode := CS104_MODE_MULTIPLE_REDUNDANCY_GROUPS \<rparr>"

text \<open>
  Scenario S2 of the specification at its last frame: w = 8, seven I-frames are
  unconfirmed, and the I-frame with N(S) = 7, N(R) = 0 and a one-byte ASDU has
  arrived on the socket of a connection that is not active.
\<close>

definition ex_w_trigger :: sCS104_Slave where
  "ex_w_trigger =
     ex_slave
       (ex_connection
          \<lparr> socket := \<lparr> readable = [0x68, 0x05, 0x0e, 0x00, 0x00, 0x00, 0x2a],
                        readBroken = False, writeResults = (\<lambda>n. 6), writeCalls = [] \<rparr>,
            receiveCount := 7, unconfirmedReceivedIMessages := 7,
            timeoutT2Triggered := True, lastConfirmationTime := 100 \<rparr>)
       (MessageQueue_initialize 1000 4)"

text \<open>
  A clock set back: at the time 1000 the connection holds a confirmation time of
  5000 and a T3 deadline of 100000 (with t3 = 20 s the latest plausible deadline is
  21000).
\<close>

definition ex_clock_back :: sMasterConnection where
  "ex_clock_back = ex_connection\<lparr> lastConfirmationTime := 5000, nextT3Timeout := 100000 \<rparr>"

section \<open>The message queue: entries that stay as they are\<close>

lemma markAsduAsConfirmed_unchanged:
  "MessageQueue_markAsduAsConfirmed self p t = self"
  by (auto simp: MessageQueue_markAsduAsConfirmed_def split: option.splits)

lemma setWaiting_unchanged:
  "MessageQueue_setWaitingForTransmissionWhenNotConfirmed self = Some q \<Longrightarrow> q = self"
  by (auto simp: MessageQueue_setWaitingForTransmissionWhenNotConfirmed_def
           split: if_splits option.splits)

lemma ex_failover_queue_eval:
  "map_option (\<lambda>q. (cursors q, oldestTimestamp q, map_option fst (mem q 1000))) ex_failover_queue
   = Some ((1, 1000, 1000, 1000), 5,
           Some \<lparr> entryTimestamp = 5, entryState = QUEUE_ENTRY_STATE_SENT_BUT_NOT_CONFIRMED,
                  entry_size = 4 \<rparr>)"
  by (simp add: ex_failover_queue_def MessageQueue_enqueueASDU_def MessageQueue_initialize_def
        MessageQueue_getNextWaitingASDU_def getNextWaitingASDU_loop.simps cursors_def
        sizeof_sMessageQueueEntryInfo_def IEC60870_5_104_APCI_LENGTH_def store_entry_def)

text \<open>
  Claim C1 (removing an active connection sets every SENT_UNCONFIRMED entry of its
  low-priority queue back to WAITING, so that the next connection fetches it again),
  evaluated on scenario S6: the queue holds one entry, enqueued at time 5 and fetched
  by the active connection, hence in state
  \<^const>\<open>QUEUE_ENTRY_STATE_SENT_BUT_NOT_CONFIRMED\<close>. After
  \<^const>\<open>CS104_Slave_removeConnection\<close> the slot is free, but the entry stored at
  address 1000 is still in that state, and \<^const>\<open>MessageQueue_getNextWaitingASDU\<close>
  on the queue yields \<^verbatim>\<open>NULL\<close>: the loop of
  \<^const>\<open>MessageQueue_setWaitingForTransmissionWhenNotConfirmed\<close> changes only its
  local copy of each header.
\<close>

theorem removeConnection_keeps_sent_state:
  "(case ex_failover_queue of
      None \<Rightarrow> None
    | Some q \<Rightarrow>
        (case CS104_Slave_removeConnection (ex_slave (ex_connection\<lparr> isActive := True \<rparr>) q) 0 of
           None \<Rightarrow> None
         | Some s \<Rightarrow>
             (case messageQueues s 100 of
                None \<Rightarrow> None
              | Some q1 \<Rightarrow>
                  Some (map_option (\<lambda>c. isUsed c) (masterConnections s ! 0),
                        map_option (\<lambda>e. entryState (fst e)) (mem q1 1000),
                        map_option snd (MessageQueue_getNextWaitingASDU q1)))))
   = Some (Some False, Some QUEUE_ENTRY_STATE_SENT_BUT_NOT_CONFIRMED, Some None)"
  by (simp add: ex_failover_queue_def MessageQueue_enqueueASDU_def MessageQueue_initialize_def
        MessageQueue_getNextWaitingASDU_def getNextWaitingASDU_loop.simps
        MessageQueue_setWaitingForTransmissionWhenNotConfirmed_def setWaiting_loop.simps
        CS104_Slave_removeConnection_def ex_slave_def ex_connection_def setConnection_def
        sizeof_sMessageQueueEntryInfo_def IEC60870_5_104_APCI_LENGTH_def store_entry_def)

text \<open>
  Claim C2 (on a non-empty queue, \<open>mark_confirmed(ptr, timestamp)\<close> with
  \<open>timestamp \<ge> oldestTimestamp\<close> sets the entry at \<open>ptr\<close> to the state FREE in
  the backing store), evaluated on the queue of scenario S6: the queue is not empty,
  the time stamp 5 is not older than \<open>oldestTimestamp\<close>, the entry at address 1000 is
  in state \<^const>\<open>QUEUE_ENTRY_STATE_SENT_BUT_NOT_CONFIRMED\<close>, and it is in the same
  state after \<^const>\<open>MessageQueue_markAsduAsConfirmed\<close>: the function sets the state
  of a local copy of the header and never copies it back.
\<close>

theorem markAsduAsConfirmed_keeps_sent_state:
  "(case ex_failover_queue of
      None \<Rightarrow> None
    | Some q \<Rightarrow>
        Some (0 < entryCounter q, oldestTimestamp q \<le> 5,
              map_option (\<lambda>e. entryState (fst e)) (mem q 1000),
              map_option (\<lambda>e. entryState (fst e))
                (mem (MessageQueue_markAsduAsConfirmed q 1000 5) 1000)))
   = Some (True, True, Some QUEUE_ENTRY_STATE_SENT_BUT_NOT_CONFIRMED,
           Some QUEUE_ENTRY_STATE_SENT_BUT_NOT_CONFIRMED)"
  by (simp add: ex_failover_queue_def MessageQueue_enqueueASDU_def MessageQueue_initialize_def
        MessageQueue_getNextWaitingASDU_def getNextWaitingASDU_loop.simps
        MessageQueue_markAsduAsConfirmed_def
        sizeof_sMessageQueueEntryInfo_def IEC60870_5_104_APCI_LENGTH_def store_entry_def)

text \<open>
  Claim C6 (enqueue evicts the oldest live entries, starting from \<open>first\<close>, until the
  new entry fits, then appends it), evaluated under queue pressure. After seven
  enqueues the live entries are D at 1790 (the oldest, at the end of the buffer), E at
  1000, F at 1200 and G at 1400, with 190 free bytes between G and D. The eighth ASDU
  (249 bytes, an entry of 265 bytes) does not fit behind G: the function wraps to the
  start of the buffer, finds \<open>1000 + 265 \<le> 1790\<close> and evicts nothing. The counter
  goes from 4 to 5, \<open>first\<close> stays at D, the new entry replaces E at 1000 and its
  bytes run over the header of F at 1200, and \<open>lastInBufferEntry\<close> is left at 1400.
\<close>

theorem enqueue_overwrites_live_entries:
  "(case enqueueASDUs ex_pressure_asdus (MessageQueue_initialize 1000 3) of
      None \<Rightarrow> None
    | Some q7 \<Rightarrow>
        (case MessageQueue_enqueueASDU 8 (replicate 249 0) q7 of
           None \<Rightarrow> None
         | Some q8 \<Rightarrow>
             Some (cursors q7,
                   map (\<lambda>a. map_option (\<lambda>e. entryTimestamp (fst e)) (mem q7 a))
                     [1790, 1000, 1200, 1400],
                   cursors q8,
                   map (\<lambda>a. map_option (\<lambda>e. entryTimestamp (fst e)) (mem q8 a))
                     [1790, 1000, 1200, 1400])))
   = Some ((4, 1790, 1400, 1790), [Some 4, Some 5, Some 6, Some 7],
           (5, 1790, 1000, 1400), [Some 4, Some 8, None, Some 7])"
  by (simp add: ex_pressure_asdus_def MessageQueue_enqueueASDU_def MessageQueue_initialize_def
        cursors_def sizeof_sMessageQueueEntryInfo_def IEC60870_5_104_APCI_LENGTH_def
        store_entry_def)

text \<open>
  Claim C7 (\<open>receiveMessage\<close> returns 0 whenever a complete APDU is not yet
  available and keeps \<open>recvBufPos\<close> so that a partial frame is resumed), evaluated
  for a socket on which only the start byte \<open>0x68\<close> has arrived. The read of the
  start byte succeeds, the read of the length byte returns 0 bytes without any read
  error, and the function returns \<open>-1\<close> with \<open>recvBufPos = 0\<close>: the start byte is
  consumed and forgotten, and the caller closes the connection.
\<close>

theorem receiveMessage_drops_start_byte:
  "(case receiveMessage
           (ex_connection\<lparr> socket := (socket ex_connection)\<lparr> readable := [0x68] \<rparr> \<rparr>) of
      (r, con) \<Rightarrow> (r, recvBufPos con, readable (socket con), readBroken (socket con)))
   = (- 1, 0, [], False)"
  by (simp add: receiveMessage_def readFromSocket_def Socket_read_def ex_connection_def)

section \<open>Sending I-frames\<close>

text \<open>
  Claim C10: every call of \<^const>\<open>sendIMessage\<close> leaves
  \<open>unconfirmedReceivedIMessages\<close> at 0, whatever the socket write returns; only when
  the write returns a positive number is \<open>sendCount\<close> incremented modulo 32768 and
  \<open>timeoutT2Triggered\<close> cleared, and otherwise \<open>isRunning\<close> is cleared instead. The
  function's result is the \<open>sendCount\<close> it leaves behind.
\<close>

theorem sendIMessage_counters:
  "unconfirmedReceivedIMessages (snd (sendIMessage self buf msgSize)) = 0
   \<and> sendCount (snd (sendIMessage self buf msgSize))
       = (if writeResults (socket self) (length (writeCalls (socket self))) > 0
          then (sendCount self + 1) mod 32768 else sendCount self)
   \<and> timeoutT2Triggered (snd (sendIMessage self buf msgSize))
       = (if writeResults (socket self) (length (writeCalls (socket self))) > 0
          then False else timeoutT2Triggered self)
   \<and> isRunning (snd (sendIMessage self buf msgSize))
       = (if writeResults (socket self) (length (writeCalls (socket self))) > 0
          then isRunning self else False)
   \<and> fst (sendIMessage self buf msgSize)
       = int (sendCount (snd (sendIMessage self buf msgSize)))"
  by (simp add: sendIMessage_def writeToSocket_def Socket_write_def Let_def)

section \<open>The timers\<close>

lemma ms_uint64_fits:
  assumes "- 2147483648 \<le> t * 1000" "t * 1000 < 2147483648"
  shows "ms_uint64 t = word_of_int (t * 1000)"
proof -
  define p where "p = t * 1000"
  have "- (2 ^ 31) \<le> p" "p < 2 ^ 31" using assms by (simp_all add: p_def)
  then have "signed_take_bit 31 p = p" by (rule signed_take_bit_int_eq_self)
  then have "sint (word_of_int p :: 32 word) = p" by (simp only: sint_sbintrunc') simp
  then show ?thesis unfolding ms_uint64_def p_def by simp
qed

lemma checkT3Timeout_expired:
  assumes "currentTime > nextT3Timeout self"
  shows "fst (checkT3Timeout params self currentTime)"
proof (cases "nextT3Timeout self > currentTime + ms_uint64 (apci_t3 params)")
  case True
  with assms have "currentTime > currentTime + ms_uint64 (apci_t3 params)" by simp
  with True show ?thesis by (simp add: checkT3Timeout_def resetT3Timeout_def)
next
  case False
  with assms show ?thesis by (simp add: checkT3Timeout_def)
qed

lemma checkT3Timeout_fields:
  "snd (checkT3Timeout params self currentTime) =
     self\<lparr> nextT3Timeout := nextT3Timeout (snd (checkT3Timeout params self currentTime)) \<rparr>"
  by (simp add: checkT3Timeout_def resetT3Timeout_def)

lemma T3_expired_many:
  assumes "currentTime > nextT3Timeout self" "outstandingTestFRConMessages self > 2"
  shows "handleTimeouts_T3 params currentTime self = (False, snd (checkT3Timeout params self currentTime))"
  using checkT3Timeout_expired [OF assms(1), of params] assms(2)
  by (cases "checkT3Timeout params self currentTime")
     (auto simp: handleTimeouts_T3_def checkT3Timeout_def resetT3Timeout_def split: if_splits)

lemma T3_expired_few:
  assumes "currentTime > nextT3Timeout self" "\<not> outstandingTestFRConMessages self > 2"
  shows "fst (handleTimeouts_T3 params currentTime self) = True
       \<and> writeCalls (socket (snd (handleTimeouts_T3 params currentTime self)))
           = writeCalls (socket self) @ [TESTFR_ACT_MSG]
       \<and> outstandingTestFRConMessages (snd (handleTimeouts_T3 params currentTime self))
           = outstandingTestFRConMessages self + 1
       \<and> nextT3Timeout (snd (handleTimeouts_T3 params currentTime self))
           = currentTime + ms_uint64 (apci_t3 params)"
  using checkT3Timeout_expired [OF assms(1), of params] assms(2)
  by (cases "checkT3Timeout params self currentTime")
     (auto simp: handleTimeouts_T3_def checkT3Timeout_def resetT3Timeout_def writeToSocket_def
                 Socket_write_def Let_def split: if_splits)

lemma T2_keeps:
  "outstandingTestFRConMessages (handleTimeouts_T2 params currentTime self)
     = outstandingTestFRConMessages self
   \<and> nextT3Timeout (handleTimeouts_T2 params currentTime self) = nextT3Timeout self
   \<and> sentASDUs (handleTimeouts_T2 params currentTime self) = sentASDUs self
   \<and> oldestSentASDU (handleTimeouts_T2 params currentTime self) = oldestSentASDU self
   \<and> take (length (writeCalls (socket self)))
         (writeCalls (socket (handleTimeouts_T2 params currentTime self)))
       = writeCalls (socket self)"
  by (simp add: handleTimeouts_T2_def sendSMessage_def writeToSocket_def Socket_write_def Let_def)

lemma T1_keeps:
  "outstandingTestFRConMessages (snd (handleTimeouts_T1 params currentTime ok self))
     = outstandingTestFRConMessages self
   \<and> nextT3Timeout (snd (handleTimeouts_T1 params currentTime ok self)) = nextT3Timeout self
   \<and> socket (snd (handleTimeouts_T1 params currentTime ok self)) = socket self
   \<and> lastConfirmationTime (snd (handleTimeouts_T1 params currentTime ok self))
       = lastConfirmationTime self
   \<and> (fst (handleTimeouts_T1 params currentTime False self) = False)"
  by (simp add: handleTimeouts_T1_def Let_def)

text \<open>
  Claim C8: when \<^const>\<open>handleTimeouts\<close> runs at a time after \<open>nextT3Timeout\<close>, then
  with more than two TESTFR_ACT outstanding it reports failure and the caller clears
  \<open>isRunning\<close>; otherwise the next buffer handed to the socket is
  \<^const>\<open>TESTFR_ACT_MSG\<close> (\<open>68 04 43 00 00 00\<close>), the count of outstanding TESTFR_ACT
  grows by one and \<open>nextT3Timeout\<close> becomes the current time plus \<open>t3 * 1000\<close>:
  the value \<^const>\<open>ms_uint64\<close> of the C expression, which is the product itself
  whenever the product is in the range of \<^verbatim>\<open>int\<close>. So with three TESTFR_ACT unanswered
  the next expiry of T3 closes the connection.
\<close>

theorem handleTimeouts_T3_expiry:
  assumes "currentTime > nextT3Timeout self"
  shows "if outstandingTestFRConMessages self > 2
         then \<not> fst (handleTimeouts params currentTime self)
              \<and> \<not> isRunning (executeTimeouts params currentTime self)
         else take (Suc (length (writeCalls (socket self))))
                (writeCalls (socket (snd (handleTimeouts params currentTime self))))
                = writeCalls (socket self) @ [TESTFR_ACT_MSG]
              \<and> outstandingTestFRConMessages (snd (handleTimeouts params currentTime self))
                  = outstandingTestFRConMessages self + 1
              \<and> nextT3Timeout (snd (handleTimeouts params currentTime self))
                  = currentTime + ms_uint64 (apci_t3 params)
              \<and> (- 2147483648 \<le> apci_t3 params * 1000 \<and> apci_t3 params * 1000 < 2147483648
                  \<longrightarrow> nextT3Timeout (snd (handleTimeouts params currentTime self))
                      = currentTime + word_of_int (apci_t3 params * 1000))"
proof (cases "outstandingTestFRConMessages self > 2")
  case True
  have t3: "handleTimeouts_T3 params currentTime self
            = (False, snd (checkT3Timeout params self currentTime))"
    using assms True by (rule T3_expired_many)
  have "\<not> fst (handleTimeouts params currentTime self)"
    using T1_keeps [of params currentTime]
    by (simp add: handleTimeouts_def t3)
  then show ?thesis
    using True
    by (cases "handleTimeouts params currentTime self") (simp add: executeTimeouts_def)
next
  case False
  obtain ok s1 where r: "handleTimeouts_T3 params currentTime self = (ok, s1)"
    by (cases "handleTimeouts_T3 params currentTime self")
  have f: "writeCalls (socket s1) = writeCalls (socket self) @ [TESTFR_ACT_MSG]"
     "outstandingTestFRConMessages s1 = outstandingTestFRConMessages self + 1"
     "nextT3Timeout s1 = currentTime + ms_uint64 (apci_t3 params)"
    using T3_expired_few [OF assms False, of params] r by simp_all
  let ?s2 = "handleTimeouts_T2 params currentTime s1"
  have snd_eq: "snd (handleTimeouts params currentTime self)
        = snd (handleTimeouts_T1 params currentTime ok ?s2)"
    by (simp add: handleTimeouts_def r)
  have sock: "socket (snd (handleTimeouts params currentTime self)) = socket ?s2"
    and outst: "outstandingTestFRConMessages (snd (handleTimeouts params currentTime self))
                = outstandingTestFRConMessages s1"
    and nt3: "nextT3Timeout (snd (handleTimeouts params currentTime self)) = nextT3Timeout s1"
    unfolding snd_eq
    using T1_keeps [of params currentTime ok ?s2] T2_keeps [of params currentTime s1]
    by simp_all
  have "take (length (writeCalls (socket s1))) (writeCalls (socket ?s2)) = writeCalls (socket s1)"
    using T2_keeps [of params currentTime s1] by blast
  then have "take (Suc (length (writeCalls (socket self)))) (writeCalls (socket ?s2))
             = writeCalls (socket self) @ [TESTFR_ACT_MSG]"
    unfolding f(1) by simp
  then show ?thesis
    using False by (simp add: sock outst nt3 f(2,3) ms_uint64_fits)
qed

text \<open>
  Claim C9, amended: during \<^const>\<open>handleTimeouts\<close>, a \<open>lastConfirmationTime\<close> other
  than \<open>UINT64_MAX\<close> that lies after the current time is set to the current time when
  I-frames are unconfirmed (and the T2 check then sends nothing); a \<open>nextT3Timeout\<close>
  after the current time plus \<open>t3 * 1000\<close> is set to the current time plus
  \<open>t3 * 1000\<close> (the products are those of the C expressions,
  \<^const>\<open>ms_uint64\<close>); and the function reports failure only when the current time lies
  after the T3 deadline with more than two TESTFR_ACT outstanding, or after the send
  time of the oldest unconfirmed I-frame by at least \<open>t1 * 1000\<close>: a stored time in
  the future never closes the connection.
\<close>

theorem handleTimeouts_clock_regression:
  assumes "handleTimeouts params currentTime self = (ok, self')"
  shows "(unconfirmedReceivedIMessages self > 0 \<and> lastConfirmationTime self \<noteq> UINT64_MAX
            \<and> lastConfirmationTime self > currentTime
          \<longrightarrow> lastConfirmationTime self' = currentTime
              \<and> writeCalls (socket self')
                  = writeCalls (socket (snd (handleTimeouts_T3 params currentTime self))))
       \<and> (nextT3Timeout self > currentTime + ms_uint64 (apci_t3 params)
          \<longrightarrow> nextT3Timeout self' = currentTime + ms_uint64 (apci_t3 params))
       \<and> (\<not> ok \<longrightarrow>
            (outstandingTestFRConMessages self > 2
               \<and> currentTime > (if nextT3Timeout self
                                     > currentTime + ms_uint64 (apci_t3 params)
                                  then currentTime + ms_uint64 (apci_t3 params)
                                  else nextT3Timeout self))
            \<or> (oldestSentASDU self \<noteq> - 1
                \<and> currentTime > sentTime (sentASDUs self ! nat (oldestSentASDU self))
                \<and> currentTime - sentTime (sentASDUs self ! nat (oldestSentASDU self))
                    \<ge> ms_uint64 (apci_t1 params)))"
proof -
  obtain ok3 s1 where r: "handleTimeouts_T3 params currentTime self = (ok3, s1)"
    by (cases "handleTimeouts_T3 params currentTime self")
  have s1: "unconfirmedReceivedIMessages s1 = unconfirmedReceivedIMessages self"
    "lastConfirmationTime s1 = lastConfirmationTime self"
    "sentASDUs s1 = sentASDUs self" "oldestSentASDU s1 = oldestSentASDU self"
    using r
    by (auto simp: handleTimeouts_T3_def checkT3Timeout_def resetT3Timeout_def writeToSocket_def
                   Socket_write_def Let_def split: if_splits)
  have t3: "nextT3Timeout self > currentTime + ms_uint64 (apci_t3 params)
            \<Longrightarrow> nextT3Timeout s1 = currentTime + ms_uint64 (apci_t3 params)"
    using r
    by (auto simp: handleTimeouts_T3_def checkT3Timeout_def resetT3Timeout_def writeToSocket_def
                   Socket_write_def Let_def split: if_splits)
  have ok3: "\<not> ok3 \<Longrightarrow> outstandingTestFRConMessages self > 2
               \<and> currentTime > (if nextT3Timeout self
                                     > currentTime + ms_uint64 (apci_t3 params)
                                  then currentTime + ms_uint64 (apci_t3 params)
                                  else nextT3Timeout self)"
    using r
    by (auto simp: handleTimeouts_T3_def checkT3Timeout_def resetT3Timeout_def writeToSocket_def
                   Socket_write_def Let_def split: if_splits)
  have t2: "unconfirmedReceivedIMessages self > 0 \<and> lastConfirmationTime self \<noteq> UINT64_MAX
            \<and> lastConfirmationTime self > currentTime
            \<Longrightarrow> handleTimeouts_T2 params currentTime s1 = s1\<lparr> lastConfirmationTime := currentTime \<rparr>"
    using s1 by (simp add: handleTimeouts_T2_def Let_def)
  have h: "(ok, self') = handleTimeouts_T1 params currentTime ok3
                           (handleTimeouts_T2 params currentTime s1)"
    using assms by (simp add: handleTimeouts_def r)
  have self': "self' = snd (handleTimeouts_T1 params currentTime ok3
                           (handleTimeouts_T2 params currentTime s1))"
    and ok: "ok = fst (handleTimeouts_T1 params currentTime ok3
                           (handleTimeouts_T2 params currentTime s1))"
    using h by (metis snd_conv, metis fst_conv)
  have c1: "unconfirmedReceivedIMessages self > 0 \<and> lastConfirmationTime self \<noteq> UINT64_MAX
            \<and> lastConfirmationTime self > currentTime
          \<longrightarrow> lastConfirmationTime self' = currentTime
              \<and> writeCalls (socket self')
                  = writeCalls (socket (snd (handleTimeouts_T3 params currentTime self)))"
    using t2 T1_keeps [of params currentTime ok3 "handleTimeouts_T2 params currentTime s1"]
    by (auto simp: self' r)
  have c2: "nextT3Timeout self > currentTime + ms_uint64 (apci_t3 params)
          \<longrightarrow> nextT3Timeout self' = currentTime + ms_uint64 (apci_t3 params)"
    using t3 T1_keeps [of params currentTime ok3 "handleTimeouts_T2 params currentTime s1"]
       T2_keeps [of params currentTime s1]
    by (auto simp: self')
  have c3: "\<not> ok \<longrightarrow>
            (outstandingTestFRConMessages self > 2
               \<and> currentTime > (if nextT3Timeout self
                                     > currentTime + ms_uint64 (apci_t3 params)
                                  then currentTime + ms_uint64 (apci_t3 params)
                                  else nextT3Timeout self))
            \<or> (oldestSentASDU self \<noteq> - 1
                \<and> currentTime > sentTime (sentASDUs self ! nat (oldestSentASDU self))
                \<and> currentTime - sentTime (sentASDUs self ! nat (oldestSentASDU self))
                    \<ge> ms_uint64 (apci_t1 params))"
  proof (cases ok3)
    case True
    then show ?thesis
      using T2_keeps [of params currentTime s1] s1
      by (auto simp: ok handleTimeouts_T1_def Let_def split: if_splits)
  next
    case False
    then show ?thesis using ok3 by simp
  qed
  from c1 c2 c3 show ?thesis by blast
qed

lemma ex_T3_run:
  "(case timeoutRuns defaultConnectionParameters [20001, 40002, 60003] ex_connection of
      con \<Rightarrow> (writeCalls (socket con), outstandingTestFRConMessages con, nextT3Timeout con,
               isRunning con))
   = ([TESTFR_ACT_MSG, TESTFR_ACT_MSG, TESTFR_ACT_MSG], 3, 80003, True)"
  by (simp add: executeTimeouts_def handleTimeouts_def handleTimeouts_T3_def
        handleTimeouts_T2_def handleTimeouts_T1_def checkT3Timeout_def resetT3Timeout_def
        writeToSocket_def Socket_write_def ex_connection_def defaultConnectionParameters_def
        TESTFR_ACT_MSG_def ms_uint64_def Let_def)

theorem handleTimeouts_T3_expiry_witness:
  "take 1 (writeCalls (socket (snd (handleTimeouts defaultConnectionParameters 20001
                                      ex_connection))))
     = [[0x68, 0x04, 0x43, 0x00, 0x00, 0x00]]
   \<and> writeCalls (socket (timeoutRuns defaultConnectionParameters [20001, 40002, 60003]
                            ex_connection))
       = [TESTFR_ACT_MSG, TESTFR_ACT_MSG, TESTFR_ACT_MSG]
   \<and> nextT3Timeout (snd (handleTimeouts defaultConnectionParameters 20001 ex_connection))
       = 40001
   \<and> isRunning (timeoutRuns defaultConnectionParameters [20001, 40002, 60003] ex_connection)
   \<and> \<not> isRunning (timeoutRuns defaultConnectionParameters [20001, 40002, 60003, 80004]
                       ex_connection)"
proof -
  let ?p = defaultConnectionParameters
  let ?c3 = "timeoutRuns ?p [20001, 40002, 60003] ex_connection"
  have h0: "nextT3Timeout ex_connection < 20001" by (simp add: ex_connection_def)
  have h3: "nextT3Timeout ?c3 < 80004" using ex_T3_run by simp
  have o3: "outstandingTestFRConMessages ?c3 > 2" using ex_T3_run by simp
  have o0: "\<not> outstandingTestFRConMessages ex_connection > 2" by (simp add: ex_connection_def)
  have w0: "writeCalls (socket ex_connection) = []" by (simp add: ex_connection_def)
  have fits: "- 2147483648 \<le> apci_t3 ?p * 1000 \<and> apci_t3 ?p * 1000 < 2147483648"
    by (simp add: defaultConnectionParameters_def)
  have first: "take 1 (writeCalls (socket (snd (handleTimeouts ?p 20001 ex_connection))))
               = [TESTFR_ACT_MSG]"
    using handleTimeouts_T3_expiry [OF h0, of ?p] o0 w0 by simp
  note few = handleTimeouts_T3_expiry [OF h0, of ?p, unfolded if_not_P [OF o0]]
  from few have "- 2147483648 \<le> apci_t3 ?p * 1000 \<and> apci_t3 ?p * 1000 < 2147483648
        \<longrightarrow> nextT3Timeout (snd (handleTimeouts ?p 20001 ex_connection))
            = 20001 + word_of_int (apci_t3 ?p * 1000)"
    by blast
  with fits have "nextT3Timeout (snd (handleTimeouts ?p 20001 ex_connection))
        = 20001 + word_of_int (apci_t3 ?p * 1000)"
    by blast
  then have next1: "nextT3Timeout (snd (handleTimeouts ?p 20001 ex_connection)) = 40001"
    by (simp add: defaultConnectionParameters_def)
  have last: "\<not> isRunning (executeTimeouts ?p 80004 ?c3)"
    using handleTimeouts_T3_expiry [OF h3, of ?p] o3 by simp
  have run4: "timeoutRuns ?p [20001, 40002, 60003, 80004] ex_connection
              = executeTimeouts ?p 80004 ?c3"
    by simp
  show ?thesis
    using first next1 last ex_T3_run unfolding run4 by (simp add: TESTFR_ACT_MSG_def)
qed

theorem handleTimeouts_future_times_counterexample:
  "1000 < lastConfirmationTime ex_clock_back
   \<and> 1000 < nextT3Timeout ex_clock_back
   \<and> fst (handleTimeouts defaultConnectionParameters 1000 ex_clock_back)
   \<and> lastConfirmationTime (snd (handleTimeouts defaultConnectionParameters 1000 ex_clock_back))
       = 5000
   \<and> nextT3Timeout (snd (handleTimeouts defaultConnectionParameters 1000 ex_clock_back))
       = 21000"
  by (simp add: handleTimeouts_def handleTimeouts_T3_def
        handleTimeouts_T2_def handleTimeouts_T1_def checkT3Timeout_def resetT3Timeout_def
        ex_clock_back_def ex_connection_def defaultConnectionParameters_def ms_uint64_def Let_def)

theorem handleTimeouts_clock_regression_witness:
  "fst (handleTimeouts defaultConnectionParameters 1000
          (ex_clock_back\<lparr> unconfirmedReceivedIMessages := 1 \<rparr>))
   \<and> lastConfirmationTime (snd (handleTimeouts defaultConnectionParameters 1000
          (ex_clock_back\<lparr> unconfirmedReceivedIMessages := 1 \<rparr>))) = 1000
   \<and> nextT3Timeout (snd (handleTimeouts defaultConnectionParameters 1000
          (ex_clock_back\<lparr> unconfirmedReceivedIMessages := 1 \<rparr>))) = 21000"
proof -
  let ?p = defaultConnectionParameters
  let ?c = "ex_clock_back\<lparr> unconfirmedReceivedIMessages := 1 \<rparr>"
  have r: "handleTimeouts ?p 1000 ?c
           = (fst (handleTimeouts ?p 1000 ?c), snd (handleTimeouts ?p 1000 ?c))"
    by simp
  have f: "unconfirmedReceivedIMessages ?c > 0" "lastConfirmationTime ?c \<noteq> UINT64_MAX"
    "lastConfirmationTime ?c > 1000"
    "nextT3Timeout ?c > 1000 + ms_uint64 (apci_t3 ?p)"
    "1000 + ms_uint64 (apci_t3 ?p) = (21000 :: uint64_t)"
    "outstandingTestFRConMessages ?c = 0" "oldestSentASDU ?c = - 1"
    by (simp_all add: ex_clock_back_def ex_connection_def defaultConnectionParameters_def
          UINT64_MAX_def ms_uint64_def)
  show ?thesis
    using handleTimeouts_clock_regression [OF r] f by auto
qed

section \<open>The w trigger\<close>

lemma confirmReceived_sends:
  assumes "unconfirmedReceivedIMessages self \<ge> apci_w params"
  shows "writeCalls (socket (confirmReceivedIMessages params now self))
           = writeCalls (socket self)
             @ [[0x68, 0x04, 0x01, 0x00,
                 of_nat ((receiveCount self mod 128) * 2), of_nat (receiveCount self div 128)]]
       \<and> unconfirmedReceivedIMessages (confirmReceivedIMessages params now self) = 0
       \<and> \<not> timeoutT2Triggered (confirmReceivedIMessages params now self)
       \<and> lastConfirmationTime (confirmReceivedIMessages params now self) = now
       \<and> receiveCount (confirmReceivedIMessages params now self) = receiveCount self"
  using assms
  by (simp add: confirmReceivedIMessages_def sendSMessage_def writeToSocket_def Socket_write_def)

text \<open>
  Claim C4: when a complete message has been received and handled and the count of
  unconfirmed received I-frames has then reached \<open>w\<close>, the connection hands exactly
  one more buffer to the socket, the S-frame \<open>68 04 01 00\<close> followed by
  \<open>(receiveCount mod 128) * 2\<close> and \<open>receiveCount div 128\<close> for the current
  \<open>receiveCount\<close>, sets \<open>unconfirmedReceivedIMessages\<close> to 0 and clears
  \<open>timeoutT2Triggered\<close>.
\<close>

theorem handleTcpConnection_w_trigger:
  assumes slot: "self < length (masterConnections slave)"
      "masterConnections slave ! self = Some con"
    and rcv: "receiveMessage con = (bytesRec, con1)" "bytesRec > 0" "isRunning con1"
    and hm: "handleMessage handleASDU currentTime (setConnection slave self con1) self
               (recvBuffer con1) bytesRec = Some (ok, slave2)"
    and slot2: "self < length (masterConnections slave2)"
      "masterConnections slave2 ! self = Some con2"
    and w: "unconfirmedReceivedIMessages con2 \<ge> apci_w (conParameters slave2)"
  shows "\<exists>slave3 con3.
           MasterConnection_handleTcpConnection handleASDU currentTime now slave self = Some slave3
         \<and> masterConnections slave3 ! self = Some con3
         \<and> writeCalls (socket con3)
             = writeCalls (socket con2)
               @ [[0x68, 0x04, 0x01, 0x00,
                   of_nat ((receiveCount con2 mod 128) * 2), of_nat (receiveCount con2 div 128)]]
         \<and> unconfirmedReceivedIMessages con3 = 0
         \<and> \<not> timeoutT2Triggered con3"
proof -
  let ?c = "if \<not> ok then con2\<lparr> isRunning := False \<rparr> else con2"
  let ?slave3 = "if \<not> ok then updateConnection slave2 self (\<lambda>c. c\<lparr> isRunning := False \<rparr>)
                 else slave2"
  have c: "masterConnections ?slave3 ! self = Some ?c"
    and p: "conParameters ?slave3 = conParameters slave2"
    and l: "self < length (masterConnections ?slave3)"
    using slot2 by (simp_all add: updateConnection_def)
  have run: "MasterConnection_handleTcpConnection handleASDU currentTime now slave self
             = Some (updateConnection ?slave3 self
                       (confirmReceivedIMessages (conParameters ?slave3) now))"
    using slot rcv hm
    by (simp add: MasterConnection_handleTcpConnection_def Let_def)
  have w': "unconfirmedReceivedIMessages ?c \<ge> apci_w (conParameters slave2)"
    using w by simp
  have res: "masterConnections (updateConnection ?slave3 self
                       (confirmReceivedIMessages (conParameters ?slave3) now)) ! self
             = Some (confirmReceivedIMessages (conParameters slave2) now ?c)"
    using c l unfolding p by (simp add: updateConnection_def)
  show ?thesis
    using run res confirmReceived_sends [OF w', of now] by auto
qed

lemma ex_w_trigger_slot:
  "masterConnections ex_w_trigger ! 0 = Some (ex_connection
          \<lparr> socket := \<lparr> readable = [0x68, 0x05, 0x0e, 0x00, 0x00, 0x00, 0x2a],
                        readBroken = False, writeResults = (\<lambda>n. 6), writeCalls = [] \<rparr>,
            receiveCount := 7, unconfirmedReceivedIMessages := 7,
            timeoutT2Triggered := True, lastConfirmationTime := 100 \<rparr>)
   \<and> 0 < length (masterConnections ex_w_trigger)"
  by (simp add: ex_w_trigger_def ex_slave_def)

lemma ex_w_trigger_receive:
  "(case receiveMessage (ex_connection
          \<lparr> socket := \<lparr> readable = [0x68, 0x05, 0x0e, 0x00, 0x00, 0x00, 0x2a],
                        readBroken = False, writeResults = (\<lambda>n. 6), writeCalls = [] \<rparr>,
            receiveCount := 7, unconfirmedReceivedIMessages := 7,
            timeoutT2Triggered := True, lastConfirmationTime := 100 \<rparr>) of
      (n, con) \<Rightarrow> (n, isRunning con))
   = (7, True)"
  by (simp add: receiveMessage_def readFromSocket_def Socket_read_def ex_connection_def Let_def)

lemma ex_w_trigger_handle:
  "(case receiveMessage (ex_connection
          \<lparr> socket := \<lparr> readable = [0x68, 0x05, 0x0e, 0x00, 0x00, 0x00, 0x2a],
                        readBroken = False, writeResults = (\<lambda>n. 6), writeCalls = [] \<rparr>,
            receiveCount := 7, unconfirmedReceivedIMessages := 7,
            timeoutT2Triggered := True, lastConfirmationTime := 100 \<rparr>) of
      (n, con) \<Rightarrow>
        map_option
          (\<lambda>(ok, s). (ok, length (masterConnections s),
                       map_option (\<lambda>c. (unconfirmedReceivedIMessages c, writeCalls (socket c),
                                          receiveCount c))
                         (masterConnections s ! 0),
                       apci_w (conParameters s)))
          (handleMessage (\<lambda>s i b. (True, s)) 1000 (setConnection ex_w_trigger 0 con) 0
             (recvBuffer con) n))
   = Some (True, 1, Some (8, [], 8), 8)"
  by (simp add: receiveMessage_def readFromSocket_def Socket_read_def ex_connection_def Let_def
        handleMessage_def handleMessage_I_def checkSequenceNumber_def setConnection_def
        ex_w_trigger_def ex_slave_def MessageQueue_initialize_def resetT3Timeout_def
        defaultConnectionParameters_def)

theorem handleTcpConnection_w_trigger_witness:
  "\<exists>slave3 con3.
      MasterConnection_handleTcpConnection (\<lambda>s i b. (True, s)) 1000 1001 ex_w_trigger 0
        = Some slave3
    \<and> masterConnections slave3 ! 0 = Some con3
    \<and> writeCalls (socket con3) = [[0x68, 0x04, 0x01, 0x00, 0x10, 0x00]]
    \<and> unconfirmedReceivedIMessages con3 = 0
    \<and> \<not> timeoutT2Triggered con3"
proof -
  let ?con = "ex_connection
          \<lparr> socket := \<lparr> readable = [0x68, 0x05, 0x0e, 0x00, 0x00, 0x00, 0x2a],
                        readBroken = False, writeResults = (\<lambda>n. 6), writeCalls = [] \<rparr>,
            receiveCount := 7, unconfirmedReceivedIMessages := 7,
            timeoutT2Triggered := True, lastConfirmationTime := 100 \<rparr>"
  obtain n con1 where r: "receiveMessage ?con = (n, con1)"
    by (cases "receiveMessage ?con")
  have n: "n > 0" and run: "isRunning con1"
    using ex_w_trigger_receive r by simp_all
  let ?h = "handleMessage (\<lambda>s i b. (True, s)) 1000 (setConnection ex_w_trigger 0 con1) 0
          (recvBuffer con1) n"
  have e: "map_option
          (\<lambda>(ok, s). (ok, length (masterConnections s),
                       map_option (\<lambda>c. (unconfirmedReceivedIMessages c, writeCalls (socket c),
                                          receiveCount c))
                         (masterConnections s ! 0),
                       apci_w (conParameters s))) ?h
           = Some (True, 1, Some (8, [], 8), 8)"
    using ex_w_trigger_handle r by simp
  obtain x where hx: "?h = Some x" using e by (cases ?h) simp_all
  obtain ok slave2 where x: "x = (ok, slave2)" by (cases x)
  have h: "?h = Some (ok, slave2)" using hx x by simp
  have l2: "0 < length (masterConnections slave2)"
    and m2: "map_option (\<lambda>c. (unconfirmedReceivedIMessages c, writeCalls (socket c),
                                receiveCount c)) (masterConnections slave2 ! 0)
             = Some (8, [], 8)"
    and w2: "apci_w (conParameters slave2) = 8"
    using e unfolding h by simp_all
  obtain con2 where c2: "masterConnections slave2 ! 0 = Some con2"
    using m2 by (cases "masterConnections slave2 ! 0") simp_all
  have u2: "unconfirmedReceivedIMessages con2 = 8" "writeCalls (socket con2) = []"
      "receiveCount con2 = 8"
    using m2 unfolding c2 by simp_all
  have w: "unconfirmedReceivedIMessages con2 \<ge> apci_w (conParameters slave2)"
    using u2 w2 by simp
  show ?thesis
    using handleTcpConnection_w_trigger
            [OF conjunct2 [OF ex_w_trigger_slot] conjunct1 [OF ex_w_trigger_slot] r n run h l2 c2 w,
             of 1001]
      u2 by simp
qed

section \<open>The sequence-number check\<close>

lemma smod_nonneg: "0 \<le> a \<Longrightarrow> 0 < b \<Longrightarrow> a smod b = a mod (b::int)"
  by (simp add: smod_int_alt_def sgn_if)

lemma mod_shift_neq:
  fixes k :: int
  assumes "0 < k" "a < b" "b - a < k"
  shows "(x + a) mod k \<noteq> (x + b) mod k"
proof
  assume "(x + a) mod k = (x + b) mod k"
  then have "(x + b) mod k = (x + a) mod k" by simp
  then have "k dvd (x + b) - (x + a)" by (simp only: mod_eq_dvd_iff)
  then have "k dvd b - a" by simp
  with assms show False using zdvd_not_zless [of "b - a" k] by simp
qed

lemma slot_suc:
  fixes k :: int
  assumes "0 < k"
  shows "((x + int p) mod k + 1) smod k = (x + int (Suc p)) mod k"
proof -
  have "0 \<le> (x + int p) mod k + 1" using assms by (simp add: add_nonneg_nonneg)
  then have "((x + int p) mod k + 1) smod k = ((x + int p) mod k + 1) mod k"
    using assms by (rule smod_nonneg)
  also have "\<dots> = (x + int p + 1) mod k" by (simp add: mod_add_left_eq)
  finally show ?thesis by (simp add: ac_simps)
qed

lemma slot_last:
  fixes k :: int
  assumes "0 \<le> nw" "nw < k"
  shows "(x + (nw - x) mod k) mod k = nw"
proof -
  have "(x + (nw - x) mod k) mod k = (x + (nw - x)) mod k" by (simp add: mod_add_right_eq)
  then show ?thesis using assms by simp
qed

lemma wf_k_pos: "kbuf_wf s \<Longrightarrow> 0 < int (maxSentASDUs s)"
  by (simp add: kbuf_wf_def)

lemma wf_oldest: "kbuf_wf s \<Longrightarrow> 0 \<le> oldestSentASDU s \<and> oldestSentASDU s < int (maxSentASDUs s)"
  by (simp add: kbuf_wf_def)

lemma wf_newest: "kbuf_wf s \<Longrightarrow> 0 \<le> newestSentASDU s \<and> newestSentASDU s < int (maxSentASDUs s)"
  by (simp add: kbuf_wf_def)

lemma wf_count_bound: "kbuf_wf s \<Longrightarrow> kbuf_count s < 32768"
  by (simp add: kbuf_wf_def)

lemma wf_seq0: "kbuf_wf s \<Longrightarrow> 0 \<le> seqNo (kbuf_entry s 0) \<and> seqNo (kbuf_entry s 0) < 32768"
  by (simp add: kbuf_wf_def)

lemma wf_seq:
  assumes "kbuf_wf s" "i < kbuf_count s"
  shows "seqNo (kbuf_entry s i) = (seqNo (kbuf_entry s 0) + int i) mod 32768"
proof -
  have "\<forall>x\<in>set [0..<kbuf_count s].
          seqNo (kbuf_entry s x) = (seqNo (kbuf_entry s 0) + int x) mod 32768"
    using assms(1) unfolding kbuf_wf_def list_all_iff by blast
  moreover have "i \<in> set [0..<kbuf_count s]" using assms(2) by simp
  ultimately show ?thesis by (rule bspec)
qed

lemma wf_slot_int:
  assumes "kbuf_wf s"
  shows "int (kbuf_slot s i) = (oldestSentASDU s + int i) mod int (maxSentASDUs s)"
proof -
  have "0 \<le> (oldestSentASDU s + int i) mod int (maxSentASDUs s)"
    using wf_k_pos [OF assms] by simp
  then show ?thesis by (simp add: kbuf_slot_def)
qed

lemma wf_slot0: 
  assumes "kbuf_wf s" shows "int (kbuf_slot s 0) = oldestSentASDU s"
  using wf_oldest [OF assms] by (simp add: wf_slot_int [OF assms])

lemma wf_count_int:
  assumes "kbuf_wf s"
  shows "int (kbuf_count s) = (newestSentASDU s - oldestSentASDU s) mod int (maxSentASDUs s) + 1"
proof -
  have "0 \<le> (newestSentASDU s - oldestSentASDU s) mod int (maxSentASDUs s)"
    using wf_k_pos [OF assms] by simp
  then show ?thesis by (simp add: kbuf_count_def)
qed

lemma wf_count_le: 
  assumes "kbuf_wf s" shows "int (kbuf_count s) \<le> int (maxSentASDUs s)"
proof -
  have "(newestSentASDU s - oldestSentASDU s) mod int (maxSentASDUs s) < int (maxSentASDUs s)"
    using wf_k_pos [OF assms] by (rule pos_mod_bound)
  then show ?thesis by (simp add: wf_count_int [OF assms])
qed

lemma wf_count_pos: "0 < kbuf_count s"
  by (simp add: kbuf_count_def)

lemma wf_slot_suc:
  assumes "kbuf_wf s"
  shows "(int (kbuf_slot s i) + 1) smod int (maxSentASDUs s) = int (kbuf_slot s (Suc i))"
  unfolding wf_slot_int [OF assms] using wf_k_pos [OF assms] by (rule slot_suc)

lemma wf_slot_last:
  assumes "kbuf_wf s" "Suc i = kbuf_count s"
  shows "int (kbuf_slot s i) = newestSentASDU s"
proof -
  have "int i + 1 = int (kbuf_count s)" using assms(2) by simp
  then have "int i = (newestSentASDU s - oldestSentASDU s) mod int (maxSentASDUs s)"
    by (simp add: wf_count_int [OF assms(1)])
  then show ?thesis
    using wf_newest [OF assms(1)] by (simp add: wf_slot_int [OF assms(1)] slot_last)
qed

lemma wf_slot_inj:
  assumes "kbuf_wf s" "i < j" "int j - int i < int (maxSentASDUs s)"
  shows "int (kbuf_slot s i) \<noteq> int (kbuf_slot s j)"
proof -
  have "int i < int j" using assms(2) by simp
  with wf_k_pos [OF assms(1)] show ?thesis
    unfolding wf_slot_int [OF assms(1)] using assms(3) by (rule mod_shift_neq)
qed

lemma wf_slot_newest:
  assumes "kbuf_wf s" "i < kbuf_count s"
  shows "int (kbuf_slot s i) = newestSentASDU s \<longleftrightarrow> Suc i = kbuf_count s"
proof (cases "Suc i = kbuf_count s")
  case True
  with assms(1) show ?thesis by (simp add: wf_slot_last)
next
  case False
  obtain j where j: "Suc j = kbuf_count s" using assms(2) by (cases "kbuf_count s") simp_all
  with False assms(2) have lt: "i < j" by simp
  have "int j - int i < int (maxSentASDUs s)"
    using wf_count_le [OF assms(1)] j by simp
  with assms(1) lt have "int (kbuf_slot s i) \<noteq> int (kbuf_slot s j)"
    by (rule wf_slot_inj)
  with wf_slot_last [OF assms(1) j] False show ?thesis by simp
qed

lemma wf_checkIndex:
  assumes "kbuf_wf s" "Suc i < kbuf_count s"
  shows "int (kbuf_slot s (Suc i)) \<noteq> (newestSentASDU s + 1) smod int (maxSentASDUs s)"
proof -
  obtain j where j: "Suc j = kbuf_count s" using assms(2) by (cases "kbuf_count s") simp_all
  have "(newestSentASDU s + 1) smod int (maxSentASDUs s)
        = (int (kbuf_slot s j) + 1) smod int (maxSentASDUs s)"
    by (simp only: wf_slot_last [OF assms(1) j])
  also have "\<dots> = int (kbuf_slot s (Suc j))"
    using assms(1) by (rule wf_slot_suc)
  finally have e: "(newestSentASDU s + 1) smod int (maxSentASDUs s) = int (kbuf_slot s (Suc j))" .
  have "int (Suc j) - int (Suc i) < int (maxSentASDUs s)"
    using wf_count_le [OF assms(1)] j by simp
  moreover have "Suc i < Suc j" using assms(2) j by simp
  ultimately have "int (kbuf_slot s (Suc i)) \<noteq> int (kbuf_slot s (Suc j))"
    using assms(1) by (intro wf_slot_inj)
  with e show ?thesis by simp
qed

lemma seq_distinct:
  fixes s0 :: int
  assumes "i < j" "j < (32768::nat)"
  shows "(s0 + int i) mod 32768 \<noteq> (s0 + int j) mod 32768"
  using assms by (intro mod_shift_neq) simp_all

lemma seq_not_before:
  fixes s0 :: int
  assumes "j < (32767::nat)"
  shows "(s0 + int j) mod 32768 \<noteq> (s0 - 1) mod 32768"
proof -
  have "(s0 + (- 1)) mod 32768 \<noteq> (s0 + int j) mod 32768"
    using assms by (intro mod_shift_neq) simp_all
  then show ?thesis by simp
qed

lemma confirm_calls_Cons:
  "confirm_calls mk q (e # es) =
     confirm_calls mk (if queueEntry e \<noteq> 0 then mk q (queueEntry e) (entryTime e) else q) es"
  by (simp add: confirm_calls_def)

lemma loop_run:
  assumes wf: "kbuf_wf self0"
    and t: "t < kbuf_count self0"
    and rcv: "rcv = (seqNo (kbuf_entry self0 0) + int t) mod 32768"
    and ov: "ovf \<or> seqNo (kbuf_entry self0 0) + int (kbuf_count self0) \<le> 32768"
    and ovs: "ovs = (seqNo (kbuf_entry self0 0) - 1) mod 32768"
    and pt: "p \<le> t"
  shows "checkSequenceNumber_loop mk ovf rcv ovs
           (self0\<lparr> oldestSentASDU := int (kbuf_slot self0 p) \<rparr>) q
         = Some (self0\<lparr> oldestSentASDU :=
                          (if Suc t = kbuf_count self0 then - 1 else int (kbuf_slot self0 (Suc t))) \<rparr>,
                 confirm_calls mk q (map (kbuf_entry self0) [p..<Suc t]))"
  using pt
proof (induction "t - p" arbitrary: p q)
  case 0
  then have pt: "p = t" by simp
  have cur: "seqNo (kbuf_entry self0 t) = rcv"
    using wf_seq [OF wf t] rcv by simp
  have t32: "t < 32767" using t wf_count_bound [OF wf] by simp
  have nb: "rcv \<noteq> ovs" unfolding rcv ovs using t32 by (rule seq_not_before)
  have nw: "int (kbuf_slot self0 t) = newestSentASDU self0 \<longleftrightarrow> Suc t = kbuf_count self0"
    using wf t by (rule wf_slot_newest)
  show ?case
    unfolding pt
    apply (subst checkSequenceNumber_loop.simps)
    using cur nb nw wf_slot_suc [OF wf, of t]
    apply (simp add: Let_def kbuf_entry_def [symmetric] confirm_calls_def)
    done
next
  case (Suc d)
  then have lt: "p < t" and d: "d = t - Suc p" and le: "Suc p \<le> t" by simp_all
  have pc: "p < kbuf_count self0" using lt t by simp
  have cur: "seqNo (kbuf_entry self0 p) = (seqNo (kbuf_entry self0 0) + int p) mod 32768"
    using wf pc by (rule wf_seq)
  have t32: "t < 32767" using t wf_count_bound [OF wf] by simp
  have nb: "rcv \<noteq> ovs" unfolding rcv ovs using t32 by (rule seq_not_before)
  have ne: "seqNo (kbuf_entry self0 p) \<noteq> rcv"
    unfolding cur rcv using lt t32 by (intro seq_distinct) simp_all
  have "\<not> (\<not> ovf \<and> rcv < seqNo (kbuf_entry self0 p))"
  proof
    assume a: "\<not> ovf \<and> rcv < seqNo (kbuf_entry self0 p)"
    with ov have b: "seqNo (kbuf_entry self0 0) + int (kbuf_count self0) \<le> 32768" by simp
    have "0 \<le> seqNo (kbuf_entry self0 0)" using wf_seq0 [OF wf] by simp
    with b t lt have "rcv = seqNo (kbuf_entry self0 0) + int t"
      and "seqNo (kbuf_entry self0 p) = seqNo (kbuf_entry self0 0) + int p"
      unfolding rcv cur by simp_all
    with a lt show False by simp
  qed
  then have nlt: "(\<not> ovf \<and> rcv < seqNo (kbuf_entry self0 p)) = False" by simp
  have ci: "int (kbuf_slot self0 (Suc p)) \<noteq> (newestSentASDU self0 + 1) smod int (maxSentASDUs self0)"
    using wf by (rule wf_checkIndex) (use lt t in simp)
  have up: "[p..<Suc t] = p # [Suc p..<Suc t]" using lt by (simp add: upt_conv_Cons)
  have IH: "checkSequenceNumber_loop mk ovf rcv ovs
              (self0\<lparr> oldestSentASDU := int (kbuf_slot self0 (Suc p)) \<rparr>) q'
            = Some (self0\<lparr> oldestSentASDU :=
                          (if Suc t = kbuf_count self0 then - 1 else int (kbuf_slot self0 (Suc t))) \<rparr>,
                 confirm_calls mk q' (map (kbuf_entry self0) [Suc p..<Suc t]))" for q'
    using Suc.hyps(1) [OF d le] .
  show ?case
    apply (subst checkSequenceNumber_loop.simps)
    using ne nb ci wf_slot_suc [OF wf, of p]
    apply (simp add: Let_def kbuf_entry_def [symmetric] IH up confirm_calls_Cons nlt del: upt_Suc)
    done
qed

lemma wf_old: 
  assumes "kbuf_wf s"
  shows "sentASDUs s ! nat (oldestSentASDU s) = kbuf_entry s 0"
proof -
  have "nat (oldestSentASDU s) = kbuf_slot s 0"
    using wf_slot0 [OF assms] by simp
  then show ?thesis by (simp add: kbuf_entry_def)
qed

lemma wf_new:
  assumes "kbuf_wf s" "Suc j = kbuf_count s"
  shows "sentASDUs s ! nat (newestSentASDU s) = kbuf_entry s j"
proof -
  have "nat (newestSentASDU s) = kbuf_slot s j"
    using wf_slot_last [OF assms] by simp
  then show ?thesis by (simp add: kbuf_entry_def)
qed

lemma wf_new_seq:
  assumes "kbuf_wf s"
  shows "seqNo (sentASDUs s ! nat (newestSentASDU s))
         = (seqNo (kbuf_entry s 0) + int (kbuf_count s) - 1) mod 32768"
proof -
  obtain j where j: "Suc j = kbuf_count s" using wf_count_pos [of s] by (cases "kbuf_count s") simp_all
  then have jc: "j < kbuf_count s" by simp
  have e: "seqNo (kbuf_entry s 0) + int (kbuf_count s) - 1 = seqNo (kbuf_entry s 0) + int j"
    using j [symmetric] by simp
  show ?thesis unfolding e wf_new [OF assms j] by (rule wf_seq [OF assms jc])
qed

lemma wf_nowrap:
  assumes "kbuf_wf s"
    and "seqNo (sentASDUs s ! nat (oldestSentASDU s)) \<le> seqNo (sentASDUs s ! nat (newestSentASDU s))"
  shows "seqNo (kbuf_entry s 0) + int (kbuf_count s) \<le> 32768"
proof (rule ccontr)
  assume "\<not> ?thesis"
  then have a: "32768 \<le> seqNo (kbuf_entry s 0) + int (kbuf_count s) - 1" by simp
  have b: "seqNo (kbuf_entry s 0) + int (kbuf_count s) - 1 < 2 * 32768"
    using wf_seq0 [OF assms(1)] wf_count_bound [OF assms(1)] by simp
  have "(seqNo (kbuf_entry s 0) + int (kbuf_count s) - 1) mod 32768
        = seqNo (kbuf_entry s 0) + int (kbuf_count s) - 1 - 32768"
    using a b by (simp add: mod_pos_geq)
  then have "seqNo (sentASDUs s ! nat (newestSentASDU s)) < seqNo (kbuf_entry s 0)"
    using wf_count_bound [OF assms(1)] by (simp add: wf_new_seq [OF assms(1)])
  with assms(2) show False by (simp add: wf_old [OF assms(1)])
qed

lemma wf_wrap:
  assumes "kbuf_wf s"
    and "\<not> seqNo (sentASDUs s ! nat (oldestSentASDU s)) \<le> seqNo (sentASDUs s ! nat (newestSentASDU s))"
  shows "seqNo (sentASDUs s ! nat (newestSentASDU s))
         = seqNo (kbuf_entry s 0) + int (kbuf_count s) - 1 - 32768"
proof -
  have a: "32768 \<le> seqNo (kbuf_entry s 0) + int (kbuf_count s) - 1"
  proof (rule ccontr)
    assume "\<not> ?thesis"
    then have "(seqNo (kbuf_entry s 0) + int (kbuf_count s) - 1) mod 32768
               = seqNo (kbuf_entry s 0) + int (kbuf_count s) - 1"
      using wf_seq0 [OF assms(1)] wf_count_pos [of s] by simp
    then have "seqNo (kbuf_entry s 0) \<le> seqNo (sentASDUs s ! nat (newestSentASDU s))"
      using wf_count_pos [of s] by (simp add: wf_new_seq [OF assms(1)])
    with assms(2) show False by (simp add: wf_old [OF assms(1)])
  qed
  have b: "seqNo (kbuf_entry s 0) + int (kbuf_count s) - 1 < 2 * 32768"
    using wf_seq0 [OF assms(1)] wf_count_bound [OF assms(1)] by simp
  show ?thesis using a b by (simp add: wf_new_seq [OF assms(1)] mod_pos_geq)
qed

lemma wf_hit:
  assumes wf: "kbuf_wf s" and r: "0 \<le> rcv" "rcv < 32768"
    and inr: "(if seqNo (sentASDUs s ! nat (oldestSentASDU s)) \<le> seqNo (sentASDUs s ! nat (newestSentASDU s))
               then rcv \<ge> seqNo (sentASDUs s ! nat (oldestSentASDU s))
                    \<and> rcv \<le> seqNo (sentASDUs s ! nat (newestSentASDU s))
               else rcv \<ge> seqNo (sentASDUs s ! nat (oldestSentASDU s))
                    \<or> rcv \<le> seqNo (sentASDUs s ! nat (newestSentASDU s)))"
  shows "\<exists>t<kbuf_count s. seqNo (kbuf_entry s t) = rcv"
proof -
  let ?s0 = "seqNo (kbuf_entry s 0)"
  let ?c = "int (kbuf_count s)"
  have s0: "0 \<le> ?s0" "?s0 < 32768" using wf_seq0 [OF wf] by simp_all
  have old: "seqNo (sentASDUs s ! nat (oldestSentASDU s)) = ?s0" by (simp add: wf_old [OF wf])
  have "\<exists>t. 0 \<le> t \<and> t < ?c \<and> (?s0 + t) mod 32768 = rcv"
  proof (cases "seqNo (sentASDUs s ! nat (oldestSentASDU s)) \<le> seqNo (sentASDUs s ! nat (newestSentASDU s))")
    case True
    have nw: "?s0 + ?c \<le> 32768" using wf True by (rule wf_nowrap)
    then have "seqNo (sentASDUs s ! nat (newestSentASDU s)) = ?s0 + ?c - 1"
      using s0 wf_count_pos [of s] by (simp add: wf_new_seq [OF wf])
    with inr True old have "?s0 \<le> rcv" "rcv \<le> ?s0 + ?c - 1" by simp_all
    then have "0 \<le> rcv - ?s0 \<and> rcv - ?s0 < ?c \<and> (?s0 + (rcv - ?s0)) mod 32768 = rcv"
      using r by simp
    then show ?thesis by blast
  next
    case False
    have nw: "seqNo (sentASDUs s ! nat (newestSentASDU s)) = ?s0 + ?c - 1 - 32768"
      using wf False by (rule wf_wrap)
    from inr False old nw have "?s0 \<le> rcv \<or> rcv \<le> ?s0 + ?c - 1 - 32768" by simp
    then show ?thesis
    proof
      assume a: "?s0 \<le> rcv"
      have "?s0 + ?c - 1 - 32768 < ?s0" using False old nw by simp
      moreover have "seqNo (sentASDUs s ! nat (newestSentASDU s)) \<ge> 0"
        unfolding wf_new_seq [OF wf] by simp
      ultimately have "32768 \<le> ?s0 + ?c - 1" using nw by simp
      with a r have "0 \<le> rcv - ?s0 \<and> rcv - ?s0 < ?c \<and> (?s0 + (rcv - ?s0)) mod 32768 = rcv"
        by simp
      then show ?thesis by blast
    next
      assume a: "rcv \<le> ?s0 + ?c - 1 - 32768"
      have "(?s0 + (rcv + 32768 - ?s0)) mod 32768 = rcv" using r by simp
      moreover have "0 \<le> rcv + 32768 - ?s0" using r s0 by simp
      moreover have "rcv + 32768 - ?s0 < ?c" using a by simp
      ultimately show ?thesis by blast
    qed
  qed
  then obtain t where t: "0 \<le> t" "t < ?c" "(?s0 + t) mod 32768 = rcv" by blast
  then have lt: "nat t < kbuf_count s" by simp
  have "seqNo (kbuf_entry s (nat t)) = rcv"
    using t wf_seq [OF wf lt] by simp
  with lt show ?thesis by blast
qed

lemma oldestValid_eq:
  fixes old :: int
  assumes "0 \<le> old" "old < 32768"
  shows "(if old = 0 then 32767 else (old - 1) smod 32768) = (old - 1) mod 32768"
  using assms by (simp add: smod_nonneg)

lemma check_empty:
  assumes "oldestSentASDU self = - 1"
  shows "checkSequenceNumber mk self q rcv = Some (seqNo_valid_spec self rcv, self, q)"
  using assms by (simp add: checkSequenceNumber_def seqNo_valid_spec_def)

lemma check_unfold:
  assumes wf: "kbuf_wf self"
  shows "checkSequenceNumber mk self q rcv =
           (if seqNo_valid_spec self rcv then
              (case checkSequenceNumber_loop mk
                      (\<not> seqNo (sentASDUs self ! nat (oldestSentASDU self))
                           \<le> seqNo (sentASDUs self ! nat (newestSentASDU self)))
                      rcv ((seqNo (kbuf_entry self 0) - 1) mod 32768) self q of
                 None \<Rightarrow> None
               | Some (self1, q1) \<Rightarrow> Some (True, self1, q1))
            else Some (False, self, q))"
proof -
  have ne: "oldestSentASDU self \<noteq> - 1" using wf_oldest [OF wf] by auto
  have ov: "(if seqNo (kbuf_entry self 0) = 0 then 32767
             else (seqNo (kbuf_entry self 0) - 1) smod 32768)
            = (seqNo (kbuf_entry self 0) - 1) mod 32768"
    using wf_seq0 [OF wf] by (intro oldestValid_eq) simp_all
  show ?thesis
    unfolding checkSequenceNumber_def seqNo_valid_spec_def
    using ne by (auto simp: Let_def wf_old [OF wf] ov)
qed

lemma check_hit:
  assumes wf: "kbuf_wf self" and v: "seqNo_valid_spec self rcv"
    and t: "t < kbuf_count self" and hit: "seqNo (kbuf_entry self t) = rcv"
  shows "checkSequenceNumber mk self q rcv =
           Some (True,
                 self\<lparr> oldestSentASDU :=
                         (if Suc t = kbuf_count self then - 1 else int (kbuf_slot self (Suc t))) \<rparr>,
                 confirm_calls mk q (map (kbuf_entry self) [0..<Suc t]))"
proof -
  have rcv: "rcv = (seqNo (kbuf_entry self 0) + int t) mod 32768"
    using wf_seq [OF wf t] hit by simp
  have ov: "(\<not> seqNo (sentASDUs self ! nat (oldestSentASDU self))
                \<le> seqNo (sentASDUs self ! nat (newestSentASDU self)))
            \<or> seqNo (kbuf_entry self 0) + int (kbuf_count self) \<le> 32768"
    using wf_nowrap [OF wf] by blast
  have self0: "self\<lparr> oldestSentASDU := int (kbuf_slot self 0) \<rparr> = self"
    by (simp add: wf_slot0 [OF wf])
  have "checkSequenceNumber_loop mk
          (\<not> seqNo (sentASDUs self ! nat (oldestSentASDU self))
               \<le> seqNo (sentASDUs self ! nat (newestSentASDU self)))
          rcv ((seqNo (kbuf_entry self 0) - 1) mod 32768)
          (self\<lparr> oldestSentASDU := int (kbuf_slot self 0) \<rparr>) q
        = Some (self\<lparr> oldestSentASDU :=
                         (if Suc t = kbuf_count self then - 1 else int (kbuf_slot self (Suc t))) \<rparr>,
                confirm_calls mk q (map (kbuf_entry self) [0..<Suc t]))"
    using wf t rcv ov by (rule loop_run) simp_all
  then show ?thesis
    unfolding self0 check_unfold [OF wf] using v by simp
qed

lemma check_reack:
  assumes wf: "kbuf_wf self" and r: "0 \<le> rcv" "rcv < 32768"
    and v: "seqNo_valid_spec self rcv"
    and miss: "\<forall>t<kbuf_count self. seqNo (kbuf_entry self t) \<noteq> rcv"
  shows "checkSequenceNumber mk self q rcv = Some (True, self, q)"
proof -
  have ne: "oldestSentASDU self \<noteq> - 1" using wf_oldest [OF wf] by auto
  have "\<not> (if seqNo (sentASDUs self ! nat (oldestSentASDU self)) \<le> seqNo (sentASDUs self ! nat (newestSentASDU self))
               then rcv \<ge> seqNo (sentASDUs self ! nat (oldestSentASDU self))
                    \<and> rcv \<le> seqNo (sentASDUs self ! nat (newestSentASDU self))
               else rcv \<ge> seqNo (sentASDUs self ! nat (oldestSentASDU self))
                    \<or> rcv \<le> seqNo (sentASDUs self ! nat (newestSentASDU self)))"
    using wf_hit [OF wf r] miss by blast
  with v ne have e: "rcv = (seqNo (kbuf_entry self 0) - 1) mod 32768"
    unfolding seqNo_valid_spec_def by (auto simp: Let_def wf_old [OF wf] split: if_splits)
  have "checkSequenceNumber_loop mk
          (\<not> seqNo (sentASDUs self ! nat (oldestSentASDU self))
               \<le> seqNo (sentASDUs self ! nat (newestSentASDU self)))
          rcv ((seqNo (kbuf_entry self 0) - 1) mod 32768) self q = Some (self, q)"
    by (subst checkSequenceNumber_loop.simps) (simp add: Let_def e)
  then show ?thesis
    unfolding check_unfold [OF wf] using v by simp
qed

text \<open>
  The decision and the k-buffer, for any function in the place of
  \<^verbatim>\<open>MessageQueue_markAsduAsConfirmed\<close>: for a received sequence number in
  \<open>[0, 32768)\<close> and a k-buffer that is empty or well formed,
  \<^const>\<open>checkSequenceNumber\<close> returns exactly the validity the specification states
  (\<^const>\<open>seqNo_valid_spec\<close>). On an invalid number nothing changes. On a valid number
  that an entry in flight carries, the function is called for the entries from
  \<open>oldestSentASDU\<close> up to and including that entry that have a queue entry pointer,
  in order, and \<open>oldestSentASDU\<close> moves behind that entry, to \<open>-1\<close> when it was the
  newest. On a valid number that no entry carries (the one before the oldest) nothing
  changes.
\<close>

lemma checkSequenceNumber_calls:
  assumes st: "oldestSentASDU self = - 1 \<or> kbuf_wf self"
    and r: "0 \<le> rcvSeqNo" "rcvSeqNo < 32768"
  shows "checkSequenceNumber markAsduAsConfirmed self q rcvSeqNo =
           Some (if \<not> seqNo_valid_spec self rcvSeqNo then (False, self, q)
                 else if oldestSentASDU self = - 1 then (True, self, q)
                 else
                   (case find (\<lambda>t. seqNo (kbuf_entry self t) = rcvSeqNo) [0..<kbuf_count self] of
                      None \<Rightarrow> (True, self, q)
                    | Some t \<Rightarrow>
                        (True,
                         self\<lparr> oldestSentASDU :=
                                 (if Suc t = kbuf_count self then - 1
                                  else int (kbuf_slot self (Suc t))) \<rparr>,
                         confirm_calls markAsduAsConfirmed q
                           (map (kbuf_entry self) [0..<Suc t]))))"
proof (cases "oldestSentASDU self = - 1")
  case True
  then show ?thesis by (simp add: check_empty)
next
  case False
  with st have wf: "kbuf_wf self" by simp
  show ?thesis
  proof (cases "seqNo_valid_spec self rcvSeqNo")
    case inv: False
    then show ?thesis by (simp add: check_unfold [OF wf])
  next
    case v: True
    show ?thesis
    proof (cases "find (\<lambda>t. seqNo (kbuf_entry self t) = rcvSeqNo) [0..<kbuf_count self]")
      case None
      then have "\<forall>t<kbuf_count self. seqNo (kbuf_entry self t) \<noteq> rcvSeqNo"
        by (simp add: find_None_iff)
      with wf r v have "checkSequenceNumber markAsduAsConfirmed self q rcvSeqNo = Some (True, self, q)"
        by (rule check_reack)
      with None v False show ?thesis by simp
    next
      case (Some t)
      then have "t < kbuf_count self" "seqNo (kbuf_entry self t) = rcvSeqNo"
        by (auto simp: find_Some_iff)
      with wf v have "checkSequenceNumber markAsduAsConfirmed self q rcvSeqNo =
           Some (True,
                 self\<lparr> oldestSentASDU :=
                         (if Suc t = kbuf_count self then - 1 else int (kbuf_slot self (Suc t))) \<rparr>,
                 confirm_calls markAsduAsConfirmed q (map (kbuf_entry self) [0..<Suc t]))"
        by (rule check_hit)
      with Some v False show ?thesis by simp
    qed
  qed
qed

lemma ex_window_wf: "kbuf_wf ex_window"
  by (simp add: kbuf_wf_def kbuf_count_def kbuf_entry_def kbuf_slot_def ex_window_def
        ex_connection_def upt_rec)

lemma ex_window_valid: "seqNo_valid_spec ex_window 0"
  by (simp add: seqNo_valid_spec_def ex_window_def ex_connection_def)

lemma ex_window_find:
  "find (\<lambda>t. seqNo (kbuf_entry ex_window t) = 0) [0..<kbuf_count ex_window] = Some 2"
  by (simp add: kbuf_count_def kbuf_entry_def kbuf_slot_def ex_window_def
        ex_connection_def upt_rec)

lemma ex_window_calls:
  "confirm_calls (\<lambda>tr p t. tr @ [(p, t)]) [] (map (kbuf_entry ex_window) [0..<Suc 2])
   = [(1000, 11), (1020, 13)]"
  by (simp add: confirm_calls_def kbuf_entry_def kbuf_slot_def ex_window_def
        ex_connection_def upt_rec)

lemma ex_window_next: "kbuf_count ex_window = 4 \<and> kbuf_slot ex_window (Suc 2) = 1"
  by (simp add: kbuf_count_def kbuf_slot_def ex_window_def ex_connection_def)

lemma checkSequenceNumber_calls_example:
  "kbuf_wf ex_window
   \<and> checkSequenceNumber (\<lambda>tr p t. tr @ [(p, t)]) ex_window [] 0
       = Some (True, ex_window\<lparr> oldestSentASDU := 1 \<rparr>, [(1000, 11), (1020, 13)])"
proof -
  have wf: "oldestSentASDU ex_window = - 1 \<or> kbuf_wf ex_window"
    using ex_window_wf by simp
  have ne: "oldestSentASDU ex_window \<noteq> - 1"
    by (simp add: ex_window_def)
  show ?thesis
    using checkSequenceNumber_calls [OF wf, of 0 "\<lambda>tr p t. tr @ [(p, t)]" "[]"]
      ex_window_wf ex_window_valid ex_window_find ex_window_calls ex_window_next ne
    by simp
qed

text \<open>
  \<^const>\<open>kbuf_wf\<close> along an execution: \<^const>\<open>sendASDU\<close> on an empty k-buffer
  establishes it, and on a k-buffer that is not full it keeps it, as long as the write
  to the socket succeeds and \<open>k\<close> is below 32768. The newest entry carries the
  sequence number \<^verbatim>\<open>sendCount\<close>.
\<close>

lemma sendASDU_sent:
  assumes w: "0 < writeResults (socket self) (length (writeCalls (socket self)))"
  shows "oldestSentASDU (sendASDU now self buf msgSize timestamp entry)
           = (if oldestSentASDU self = - 1 then 0 else oldestSentASDU self)
       \<and> newestSentASDU (sendASDU now self buf msgSize timestamp entry)
           = (if oldestSentASDU self = - 1 then 0
              else (newestSentASDU self + 1) smod int (maxSentASDUs self))
       \<and> maxSentASDUs (sendASDU now self buf msgSize timestamp entry) = maxSentASDUs self
       \<and> sendCount (sendASDU now self buf msgSize timestamp entry) = (sendCount self + 1) mod 32768
       \<and> sentASDUs (sendASDU now self buf msgSize timestamp entry)
           = (sentASDUs self)
               [nat (newestSentASDU (sendASDU now self buf msgSize timestamp entry)) :=
                  \<lparr> entryTime = timestamp, queueEntry = entry, sentTime = now,
                    seqNo = int ((sendCount self + 1) mod 32768) \<rparr>]"
  using w
  by (simp add: sendASDU_def sendIMessage_def writeToSocket_def Socket_write_def Let_def)

lemma sendASDU_starts_kbuf:
  assumes e: "oldestSentASDU self = - 1"
    and k: "0 < maxSentASDUs self" "maxSentASDUs self \<le> length (sentASDUs self)"
    and w: "0 < writeResults (socket self) (length (writeCalls (socket self)))"
  shows "kbuf_wf (sendASDU now self buf msgSize timestamp entry)
       \<and> seqNo (sentASDUs (sendASDU now self buf msgSize timestamp entry)
                 ! nat (newestSentASDU (sendASDU now self buf msgSize timestamp entry)))
           = int (sendCount (sendASDU now self buf msgSize timestamp entry))"
proof -
  let ?s = "sendASDU now self buf msgSize timestamp entry"
  note f = sendASDU_sent [OF w, of now buf msgSize timestamp entry]
  have o: "oldestSentASDU ?s = 0" and n: "newestSentASDU ?s = 0"
    and m: "maxSentASDUs ?s = maxSentASDUs self"
    and c: "sendCount ?s = (sendCount self + 1) mod 32768"
    using f e by simp_all
  have a: "sentASDUs ?s = (sentASDUs self)
               [0 := \<lparr> entryTime = timestamp, queueEntry = entry, sentTime = now,
                    seqNo = int ((sendCount self + 1) mod 32768) \<rparr>]"
    using f n by simp
  have len: "0 < length (sentASDUs self)" using k by (cases "sentASDUs self") simp_all
  have s0: "seqNo (sentASDUs ?s ! 0) = int ((sendCount self + 1) mod 32768)"
    using len by (simp add: a)
  have cnt: "kbuf_count ?s = 1" by (simp add: kbuf_count_def o n)
  have sl: "kbuf_slot ?s 0 = 0" by (simp add: kbuf_slot_def o)
  have r: "int ((sendCount self + 1) mod 32768) < 32768" by simp
  have len': "maxSentASDUs self \<le> length (sentASDUs ?s)" using k by (simp add: a)
  have "kbuf_wf ?s"
    using k len' by (simp add: kbuf_wf_def cnt kbuf_entry_def sl s0 o n m)
  then show ?thesis using s0 n c by simp
qed

lemma sendASDU_keeps_kbuf:
  assumes wf: "kbuf_wf self"
    and link: "seqNo (sentASDUs self ! nat (newestSentASDU self)) = int (sendCount self)"
    and k: "maxSentASDUs self < 32768"
    and nf: "\<not> isSentBufferFull self"
    and w: "0 < writeResults (socket self) (length (writeCalls (socket self)))"
  shows "kbuf_wf (sendASDU now self buf msgSize timestamp entry)
       \<and> seqNo (sentASDUs (sendASDU now self buf msgSize timestamp entry)
                 ! nat (newestSentASDU (sendASDU now self buf msgSize timestamp entry)))
           = int (sendCount (sendASDU now self buf msgSize timestamp entry))"
proof -
  let ?s = "sendASDU now self buf msgSize timestamp entry"
  let ?k = "int (maxSentASDUs self)"
  let ?e = "\<lparr> entryTime = timestamp, queueEntry = entry, sentTime = now,
                    seqNo = int ((sendCount self + 1) mod 32768) \<rparr>"
  note f = sendASDU_sent [OF w, of now buf msgSize timestamp entry]
  have kp: "0 < ?k" using wf by (rule wf_k_pos)
  have ne: "oldestSentASDU self \<noteq> - 1" using wf_oldest [OF wf] by simp
  obtain j where j: "Suc j = kbuf_count self"
    using wf_count_pos [of self] by (cases "kbuf_count self") simp_all
  have nw: "(newestSentASDU self + 1) smod ?k = int (kbuf_slot self (Suc j))"
    using wf_slot_suc [OF wf, of j] wf_slot_last [OF wf j] by simp
  have o: "oldestSentASDU ?s = oldestSentASDU self"
    and n: "newestSentASDU ?s = int (kbuf_slot self (Suc j))"
    and m: "maxSentASDUs ?s = maxSentASDUs self"
    and c: "sendCount ?s = (sendCount self + 1) mod 32768"
    using f ne nw by simp_all
  have a: "sentASDUs ?s = (sentASDUs self)[kbuf_slot self (Suc j) := ?e]"
    using f n by simp
  have slot: "\<And>i. kbuf_slot ?s i = kbuf_slot self i"
    by (simp add: kbuf_slot_def o m)
  have slt: "\<And>i. kbuf_slot self i < maxSentASDUs self"
  proof -
    fix i
    have "int (kbuf_slot self i) < ?k"
      unfolding wf_slot_int [OF wf] using kp by (rule pos_mod_bound)
    then show "kbuf_slot self i < maxSentASDUs self" by simp
  qed
  have lenk: "maxSentASDUs self \<le> length (sentASDUs self)" using wf by (simp add: kbuf_wf_def)
  have inl: "kbuf_slot self (Suc j) < length (sentASDUs self)"
    using slt [of "Suc j"] lenk by simp
  have notfull: "int (kbuf_slot self (Suc j)) \<noteq> oldestSentASDU self"
    using nf ne nw by (simp add: isSentBufferFull_def)
  have jk: "int (Suc j) < ?k"
  proof (rule ccontr)
    assume "\<not> int (Suc j) < ?k"
    with wf_count_le [OF wf] j have "int (Suc j) = ?k" by simp
    then have "int (kbuf_slot self (Suc j)) = (oldestSentASDU self + ?k) mod ?k"
      by (simp only: wf_slot_int [OF wf])
    also have "\<dots> = oldestSentASDU self" using wf_oldest [OF wf] by simp
    finally show False using notfull by simp
  qed
  have cnt: "kbuf_count ?s = Suc (Suc j)"
  proof -
    have "(int (kbuf_slot self (Suc j)) - oldestSentASDU self) mod ?k
          = ((oldestSentASDU self + int (Suc j)) mod ?k - oldestSentASDU self) mod ?k"
      by (simp only: wf_slot_int [OF wf])
    also have "\<dots> = (oldestSentASDU self + int (Suc j) - oldestSentASDU self) mod ?k"
      by (simp only: mod_diff_left_eq)
    also have "\<dots> = int (Suc j) mod ?k" by simp
    also have "\<dots> = int (Suc j)" using jk by simp
    finally have "(newestSentASDU ?s - oldestSentASDU ?s) mod int (maxSentASDUs ?s) = int (Suc j)"
      by (simp only: n o m)
    then show ?thesis by (simp add: kbuf_count_def)
  qed
  have old: "\<And>i. i < Suc j \<Longrightarrow> kbuf_entry ?s i = kbuf_entry self i"
  proof -
    fix i assume i: "i < Suc j"
    have "int (Suc j) - int i < ?k" using jk by simp
    with wf i have "int (kbuf_slot self i) \<noteq> int (kbuf_slot self (Suc j))"
      by (rule wf_slot_inj)
    then have "kbuf_slot self (Suc j) \<noteq> kbuf_slot self i" by auto
    then show "kbuf_entry ?s i = kbuf_entry self i"
      by (simp add: kbuf_entry_def slot a)
  qed
  have new: "kbuf_entry ?s (Suc j) = ?e"
    using inl by (simp add: kbuf_entry_def slot a)
  have e0: "kbuf_entry ?s 0 = kbuf_entry self 0" by (rule old) simp
  have lastseq: "seqNo (kbuf_entry self j) = int (sendCount self)"
  proof -
    have "kbuf_slot self j = nat (newestSentASDU self)"
      using wf_slot_last [OF wf j] by simp
    then show ?thesis using link by (simp add: kbuf_entry_def)
  qed
  have jlt: "j < kbuf_count self" using j by simp
  have sj: "int (sendCount self) = (seqNo (kbuf_entry self 0) + int j) mod 32768"
    using wf_seq [OF wf jlt] lastseq by simp
  have newseq: "seqNo ?e = (seqNo (kbuf_entry self 0) + int (Suc j)) mod 32768"
  proof -
    have "seqNo ?e = (int (sendCount self) + 1) mod 32768"
      by (simp add: zmod_int ac_simps)
    also have "\<dots> = ((seqNo (kbuf_entry self 0) + int j) mod 32768 + 1) mod 32768"
      by (simp only: sj)
    also have "\<dots> = (seqNo (kbuf_entry self 0) + int j + 1) mod 32768"
      by (simp only: mod_add_left_eq)
    finally show ?thesis by (simp add: ac_simps)
  qed
  have seqs: "\<forall>i\<in>set [0..<Suc (Suc j)].
                seqNo (kbuf_entry ?s i) = (seqNo (kbuf_entry ?s 0) + int i) mod 32768"
  proof
    fix i assume "i \<in> set [0..<Suc (Suc j)]"
    then have "i < Suc j \<or> i = Suc j" by auto
    then show "seqNo (kbuf_entry ?s i) = (seqNo (kbuf_entry ?s 0) + int i) mod 32768"
    proof
      assume i: "i < Suc j"
      then have "i < kbuf_count self" using j by simp
      from wf_seq [OF wf this] show ?thesis by (simp only: old [OF i] e0)
    next
      assume "i = Suc j"
      then show ?thesis using newseq by (simp only: new e0)
    qed
  qed
  have nb: "0 \<le> newestSentASDU ?s \<and> newestSentASDU ?s < ?k"
    using slt [of "Suc j"] by (simp add: n)
  have cb: "kbuf_count ?s < 32768" using jk k by (simp add: cnt)
  have len': "maxSentASDUs ?s \<le> length (sentASDUs ?s)" using lenk by (simp add: m a)
  have wf': "kbuf_wf ?s"
    unfolding kbuf_wf_def list_all_iff
    using kp len' wf_oldest [OF wf] nb cb wf_seq0 [OF wf] seqs
    by (simp only: o m e0 cnt) simp
  have "seqNo (sentASDUs ?s ! nat (newestSentASDU ?s)) = int (sendCount ?s)"
    using inl by (simp add: n a c)
  with wf' show ?thesis by simp
qed

text \<open>
  With the function of the source in that place the queue comes back as it was:
  every call of \<^const>\<open>MessageQueue_markAsduAsConfirmed\<close> leaves it unchanged.
\<close>

lemma confirm_calls_markAsduAsConfirmed:
  "confirm_calls MessageQueue_markAsduAsConfirmed q es = q"
proof -
  have "foldl (\<lambda>q e. q) q xs = q" for xs :: "SentASDUSlave list"
    by (induction xs) simp_all
  then show ?thesis by (simp add: confirm_calls_def markAsduAsConfirmed_unchanged)
qed

lemma checkSequenceNumber_leaves_queue:
  assumes "oldestSentASDU self = - 1 \<or> kbuf_wf self"
    and "0 \<le> rcvSeqNo" "rcvSeqNo < 32768"
  shows "\<exists>valid con.
           checkSequenceNumber MessageQueue_markAsduAsConfirmed self q rcvSeqNo
           = Some (valid, con, q)"
  unfolding checkSequenceNumber_calls [OF assms] confirm_calls_markAsduAsConfirmed
  by (auto split: option.split)

lemma ex_sent_eval:
  "map_option (\<lambda>(con, q). (oldestSentASDU con, newestSentASDU con, sendCount con,
                             sentASDUs con ! 0, writeCalls (socket con),
                             map_option (\<lambda>e. entryState (fst e)) (mem q 1000))) ex_sent
   = Some (0, 0, 1,
           \<lparr> entryTime = 5, queueEntry = 1000, sentTime = 10, seqNo = 1 \<rparr>,
           [[0x68, 0x08, 0x00, 0x00, 0x00, 0x00, 0x64, 0x01, 0x06, 0x00]],
           Some QUEUE_ENTRY_STATE_SENT_BUT_NOT_CONFIRMED)"
  by (simp add: ex_sent_def sendNextLowPriorityASDU_def isSentBufferFull_def sendASDU_def
        sendIMessage_def writeToSocket_def Socket_write_def ex_connection_def
        MessageQueue_enqueueASDU_def MessageQueue_initialize_def
        MessageQueue_getNextWaitingASDU_def getNextWaitingASDU_loop.simps
        sizeof_sMessageQueueEntryInfo_def IEC60870_5_104_APCI_LENGTH_def store_entry_def Let_def)

text \<open>
  Claim C3, at an input where the code departs from it: the connection has sent one
  I-frame from the queue (\<^const>\<open>ex_sent\<close>), its k-buffer entry carries the sequence
  number 1 and the pointer to the queue entry at address 1000, and the peer
  acknowledges it with N(R) = 1. \<^const>\<open>checkSequenceNumber\<close>, run with
  \<^const>\<open>MessageQueue_markAsduAsConfirmed\<close> as the source calls it, returns \<open>True\<close> and
  empties the k-buffer, but the queue entry it was to confirm is in the state
  \<open>SENT_BUT_NOT_CONFIRMED\<close> afterwards as before; the same when the S-frame
  \<open>68 04 01 00 02 00\<close> goes through \<^const>\<open>handleMessage\<close>. The decision itself and the
  k-buffer are as the claim says (lemma \<open>checkSequenceNumber_calls\<close>); on an invalid
  number the caller hands the result \<open>False\<close> on and the connection stops running
  (lemmas \<open>handleMessage_S_frame_invalid\<close> and \<open>handleTcpConnection_closes\<close>).
\<close>

theorem checkSequenceNumber_keeps_sent_state:
  "(case ex_sent of
      None \<Rightarrow> None
    | Some (con, q) \<Rightarrow>
        (case checkSequenceNumber MessageQueue_markAsduAsConfirmed con q 1 of
           None \<Rightarrow> None
         | Some (valid, con1, q1) \<Rightarrow>
             Some (seqNo (sentASDUs con ! 0), queueEntry (sentASDUs con ! 0),
                   map_option (\<lambda>e. entryState (fst e)) (mem q 1000),
                   valid, oldestSentASDU con1,
                   map_option (\<lambda>e. entryState (fst e)) (mem q1 1000))))
   = Some (1, 1000, Some QUEUE_ENTRY_STATE_SENT_BUT_NOT_CONFIRMED,
           True, - 1, Some QUEUE_ENTRY_STATE_SENT_BUT_NOT_CONFIRMED)
   \<and> (case ex_sent of
        None \<Rightarrow> None
      | Some (con, q) \<Rightarrow>
          (case handleMessage (\<lambda>slave self asdu. (True, slave)) 30 (ex_slave con q) 0
                  [0x68, 0x04, 0x01, 0x00, 0x02, 0x00] 6 of
             None \<Rightarrow> None
           | Some (ok, slave) \<Rightarrow>
               Some (ok,
                     map_option oldestSentASDU (masterConnections slave ! 0),
                     map_option (\<lambda>q1. map_option (\<lambda>e. entryState (fst e)) (mem q1 1000))
                       (messageQueues slave 100))))
     = Some (True, Some (- 1), Some (Some QUEUE_ENTRY_STATE_SENT_BUT_NOT_CONFIRMED))"
  by (simp add: ex_sent_def sendNextLowPriorityASDU_def isSentBufferFull_def sendASDU_def
        sendIMessage_def writeToSocket_def Socket_write_def ex_connection_def ex_slave_def
        MessageQueue_enqueueASDU_def MessageQueue_initialize_def
        MessageQueue_getNextWaitingASDU_def getNextWaitingASDU_loop.simps
        handleMessage_def setConnection_def resetT3Timeout_def ms_uint64_def
        defaultConnectionParameters_def
        checkSequenceNumber_def checkSequenceNumber_loop.simps
        MessageQueue_markAsduAsConfirmed_def
        sizeof_sMessageQueueEntryInfo_def IEC60870_5_104_APCI_LENGTH_def store_entry_def Let_def)

lemma checkSequenceNumber_invalid:
  assumes "oldestSentASDU self = - 1 \<or> kbuf_wf self"
    and "\<not> seqNo_valid_spec self rcv"
  shows "checkSequenceNumber mk self q rcv = Some (False, self, q)"
proof (cases "oldestSentASDU self = - 1")
  case True
  then show ?thesis using assms(2) by (simp add: check_empty)
next
  case False
  with assms(1) have wf: "kbuf_wf self" by simp
  show ?thesis using assms(2) by (simp add: check_unfold [OF wf])
qed

lemma handleMessage_S_frame_invalid:
  assumes slot: "i < length (masterConnections slave)" "masterConnections slave ! i = Some con"
    and q: "messageQueues slave (lowPrioQueue con) = Some q"
    and frame: "buf ! 0 = 0x68" "buf ! 1 = 4" "buf ! 2 = 1"
    and st: "oldestSentASDU con = - 1 \<or> kbuf_wf con"
    and inv: "\<not> seqNo_valid_spec con ((uint (buf ! 4) + uint (buf ! 5) * 0x100) div 2)"
  shows "handleMessage handleASDU currentTime slave i buf 6 = Some (False, slave)"
proof -
  have c: "checkSequenceNumber MessageQueue_markAsduAsConfirmed con q
             ((uint (buf ! 4) + uint (buf ! 5) * 0x100) div 2) = Some (False, con, q)"
    using st inv by (rule checkSequenceNumber_invalid)
  have same: "(setConnection slave i con)
                \<lparr> messageQueues := (messageQueues slave)(lowPrioQueue con \<mapsto> q) \<rparr> = slave"
    using slot q by (simp add: setConnection_def list_update_same_conv map_upd_triv)
  show ?thesis
    using slot q frame c same by (simp add: handleMessage_def Let_def)
qed

lemma confirmReceived_not_running:
  "\<not> isRunning self \<Longrightarrow> \<not> isRunning (confirmReceivedIMessages params now self)"
  by (simp add: confirmReceivedIMessages_def sendSMessage_def writeToSocket_def Socket_write_def)

lemma handleTcpConnection_closes:
  assumes slot: "self < length (masterConnections slave)"
      "masterConnections slave ! self = Some con"
    and rcv: "receiveMessage con = (bytesRec, con1)" "bytesRec > 0" "isRunning con1"
    and hm: "handleMessage handleASDU currentTime (setConnection slave self con1) self
               (recvBuffer con1) bytesRec = Some (False, slave2)"
    and slot2: "self < length (masterConnections slave2)"
      "masterConnections slave2 ! self = Some con2"
  shows "\<exists>slave3 con3.
           MasterConnection_handleTcpConnection handleASDU currentTime now slave self = Some slave3
         \<and> masterConnections slave3 ! self = Some con3
         \<and> \<not> isRunning con3"
proof -
  let ?slave3 = "updateConnection slave2 self (\<lambda>c. c\<lparr> isRunning := False \<rparr>)"
  have run: "MasterConnection_handleTcpConnection handleASDU currentTime now slave self
             = Some (updateConnection ?slave3 self
                       (confirmReceivedIMessages (conParameters ?slave3) now))"
    using slot rcv hm
    by (simp add: MasterConnection_handleTcpConnection_def Let_def)
  have res: "masterConnections (updateConnection ?slave3 self
                       (confirmReceivedIMessages (conParameters ?slave3) now)) ! self
             = Some (confirmReceivedIMessages (conParameters ?slave3) now
                       (con2\<lparr> isRunning := False \<rparr>))"
    using slot2 by (simp add: updateConnection_def)
  have "\<not> isRunning (confirmReceivedIMessages (conParameters ?slave3) now
                       (con2\<lparr> isRunning := False \<rparr>))"
    by (rule confirmReceived_not_running) simp
  with run res show ?thesis by blast
qed

section \<open>Activation exclusivity\<close>

lemma exclusive_iff:
  "activation_exclusive s \<longleftrightarrow>
     (\<forall>i<length (masterConnections s). \<forall>j<length (masterConnections s).
        i \<noteq> j \<longrightarrow> \<not> active_together s i j)"
  by (auto simp: activation_exclusive_def list_all_iff Ball_def)

lemma activate_length:
  "CS104_Slave_activate s t = Some s' \<Longrightarrow>
   length (masterConnections s') = length (masterConnections s) \<and> serverMode s' = serverMode s"
  by (auto simp: CS104_Slave_activate_def CS104_Slave_activate_peers_def
        CS104_Slave_activate_target_def updateConnection_def Let_def
           split: if_splits option.splits)

lemma activate_target:
  "CS104_Slave_activate s t = Some s' \<Longrightarrow>
   t < length (masterConnections s) \<and> (\<exists>c. masterConnections s ! t = Some c)"
  by (auto simp: CS104_Slave_activate_def CS104_Slave_activate_peers_def
        CS104_Slave_activate_target_def split: if_splits option.splits)

lemma activate_nth:
  assumes "CS104_Slave_activate s t = Some s'" "j < length (masterConnections s)"
    and "masterConnections s ! t = Some target"
  shows "masterConnections s' ! j =
           (case masterConnections s ! j of
              None \<Rightarrow> None
            | Some c \<Rightarrow>
                Some (if j = t then c\<lparr> isActive := True \<rparr>
                      else if serverMode s = CS104_MODE_SINGLE_REDUNDANCY_GROUP
                              \<or> (serverMode s = CS104_MODE_MULTIPLE_REDUNDANCY_GROUPS
                                  \<and> redundancyGroup c = redundancyGroup target)
                           then c\<lparr> isActive := False \<rparr>
                           else c))"
  using assms
  by (cases "serverMode s")
     (auto simp: CS104_Slave_activate_def CS104_Slave_activate_peers_def
        CS104_Slave_activate_target_def updateConnection_def Let_def nth_enumerate_eq nth_list_update
                 MasterConnection_activate_def MasterConnection_deactivate_def
           split: if_splits option.splits)

lemma step_mode: "sequential_step s s' \<Longrightarrow> serverMode s' = serverMode s"
  by (induction rule: sequential_step.induct)
     (auto simp: activate_length setConnection_def updateConnection_def
                 MasterConnection_init_def MasterConnection_initEx_def Let_def
           split: if_splits option.splits)

lemma active_together_sym: "active_together s i j = active_together s j i"
  by (auto simp: active_together_def split: option.splits)

lemma activate_exclusive_target:
  assumes a: "CS104_Slave_activate s t = Some s'"
    and m: "serverMode s \<noteq> CS104_MODE_CONNECTION_IS_REDUNDANCY_GROUP"
    and j: "j < length (masterConnections s')" "j \<noteq> t"
  shows "\<not> active_together s' j t"
proof -
  obtain target where t: "t < length (masterConnections s)" "masterConnections s ! t = Some target"
    using activate_target [OF a] by blast
  have len: "length (masterConnections s') = length (masterConnections s)"
    and mode: "serverMode s' = serverMode s"
    using activate_length [OF a] by simp_all
  have tt: "masterConnections s' ! t = Some (target\<lparr> isActive := True \<rparr>)"
    using activate_nth [OF a t(1) t(2)] t(2) by simp
  have jj: "masterConnections s' ! j =
           (case masterConnections s ! j of
              None \<Rightarrow> None
            | Some c \<Rightarrow>
                Some (if serverMode s = CS104_MODE_SINGLE_REDUNDANCY_GROUP
                              \<or> (serverMode s = CS104_MODE_MULTIPLE_REDUNDANCY_GROUPS
                                  \<and> redundancyGroup c = redundancyGroup target)
                           then c\<lparr> isActive := False \<rparr>
                           else c))"
    using activate_nth [OF a _ t(2), of j] j len by (simp split: option.splits)
  show ?thesis
    using m by (cases "serverMode s")
      (auto simp: active_together_def tt jj mode split: option.splits)
qed

lemma activate_preserves:
  assumes a: "CS104_Slave_activate s t = Some s'"
    and m: "serverMode s \<noteq> CS104_MODE_CONNECTION_IS_REDUNDANCY_GROUP"
    and ex: "activation_exclusive s"
  shows "activation_exclusive s'"
proof -
  obtain target where t: "t < length (masterConnections s)" "masterConnections s ! t = Some target"
    using activate_target [OF a] by blast
  have len: "length (masterConnections s') = length (masterConnections s)"
    and mode: "serverMode s' = serverMode s"
    using activate_length [OF a] by simp_all
  have other: "active_together s i j"
    if "i < length (masterConnections s)" "j < length (masterConnections s)"
       "i \<noteq> t" "j \<noteq> t" "active_together s' i j" for i j
    using that activate_nth [OF a that(1) t(2)] activate_nth [OF a that(2) t(2)]
    by (auto simp: active_together_def mode split: option.splits if_splits)
  show ?thesis
    unfolding exclusive_iff
  proof (intro allI impI)
    fix i j
    assume i: "i < length (masterConnections s')" and j: "j < length (masterConnections s')"
      and ne: "i \<noteq> j"
    show "\<not> active_together s' i j"
    proof (cases "i = t \<or> j = t")
      case True
      then show ?thesis
        using activate_exclusive_target [OF a m] i j ne active_together_sym [of s' i j]
        by auto
    next
      case False
      then show ?thesis
        using other [of i j] ex i j ne len unfolding exclusive_iff by auto
    qed
  qed
qed

lemma active_together_cong:
  "masterConnections s' ! a = masterConnections s ! a \<Longrightarrow>
   masterConnections s' ! b = masterConnections s ! b \<Longrightarrow>
   serverMode s' = serverMode s \<Longrightarrow>
   active_together s' a b = active_together s a b"
  by (auto simp: active_together_def split: option.splits)

lemma inactive_not_together:
  "masterConnections s ! a = Some c \<Longrightarrow> \<not> isActive c \<Longrightarrow>
   \<not> active_together s a b \<and> \<not> active_together s b a"
  by (auto simp: active_together_def split: option.splits)

lemma exclusive_mono:
  assumes ex: "activation_exclusive s"
    and len: "length (masterConnections s') = length (masterConnections s)"
    and mode: "serverMode s' = serverMode s"
    and slots: "\<And>j. j < length (masterConnections s) \<Longrightarrow> slot_not_activated s s' j"
  shows "activation_exclusive s'"
  unfolding exclusive_iff
proof (intro allI impI)
  fix a b
  assume a: "a < length (masterConnections s')"
    and b: "b < length (masterConnections s')" and ne: "a \<noteq> b"
  have old: "\<not> active_together s a b" using ex a b ne len unfolding exclusive_iff by simp
  show "\<not> active_together s' a b"
  proof
    assume t: "active_together s' a b"
    have "slot_not_activated s s' a" "slot_not_activated s s' b"
      using slots a b len by simp_all
    with t have "active_together s a b"
      by (auto simp: active_together_def slot_not_activated_def mode split: option.splits if_splits)
    with old show False by simp
  qed
qed

lemma init_slots:
  assumes "MasterConnection_init currentTime s i skt lowQ highQ = Some s'"
  shows "length (masterConnections s') = length (masterConnections s)
         \<and> serverMode s' = serverMode s
         \<and> (\<forall>j<length (masterConnections s). slot_not_activated s s' j)"
  using assms
  by (auto simp: MasterConnection_init_def Let_def resetT3Timeout_def setConnection_def
                 slot_not_activated_def nth_list_update
           split: if_splits option.splits)

lemma init_inactive:
  assumes "MasterConnection_init currentTime s i skt lowQ highQ = Some s'"
  shows "case masterConnections s' ! i of None \<Rightarrow> True | Some c \<Rightarrow> \<not> isActive c"
  using assms
  by (auto simp: MasterConnection_init_def Let_def resetT3Timeout_def setConnection_def
           split: if_splits option.splits)

lemma initEx_slots:
  assumes "MasterConnection_initEx currentTime s i skt g lowQ highQ = Some s'"
  shows "length (masterConnections s') = length (masterConnections s)
         \<and> serverMode s' = serverMode s
         \<and> (\<forall>j<length (masterConnections s). slot_not_activated s s' j)"
proof -
  obtain s1 where s1: "MasterConnection_init currentTime s i skt lowQ highQ = Some s1"
    and s': "s' = updateConnection s1 i (\<lambda>con. con\<lparr> redundancyGroup := g \<rparr>)"
    using assms by (auto simp: MasterConnection_initEx_def split: option.splits)
  have len1: "length (masterConnections s1) = length (masterConnections s)"
    and mode1: "serverMode s1 = serverMode s"
    and slots1: "\<And>j. j < length (masterConnections s) \<Longrightarrow> slot_not_activated s s1 j"
    using init_slots [OF s1] by simp_all
  have ina: "case masterConnections s1 ! i of None \<Rightarrow> True | Some c \<Rightarrow> \<not> isActive c"
    using s1 by (rule init_inactive)
  have "slot_not_activated s s' j" if j: "j < length (masterConnections s)" for j
  proof (cases "j = i")
    case True
    then show ?thesis
      using ina j len1 unfolding s'
      by (auto simp: slot_not_activated_def updateConnection_def split: option.splits)
  next
    case False
    then have "masterConnections s' ! j = masterConnections s1 ! j"
      unfolding s' by (simp add: updateConnection_def)
    with slots1 [OF j] show ?thesis by (simp add: slot_not_activated_def)
  qed
  then show ?thesis using len1 mode1 unfolding s' by (simp add: updateConnection_def)
qed

lemma deactivate_slots:
  assumes "i < length (masterConnections s)" "masterConnections s ! i = Some con"
  shows "length (masterConnections (setConnection s i (MasterConnection_deactivate con)))
           = length (masterConnections s)
         \<and> serverMode (setConnection s i (MasterConnection_deactivate con)) = serverMode s
         \<and> (\<forall>j<length (masterConnections s).
               slot_not_activated s (setConnection s i (MasterConnection_deactivate con)) j)"
  using assms
  by (auto simp: setConnection_def MasterConnection_deactivate_def slot_not_activated_def
                 nth_list_update split: option.splits)

lemma other_slots:
  assumes "map (map_option (\<lambda>con. (isActive con, redundancyGroup con))) (masterConnections s')
       = map (map_option (\<lambda>con. (isActive con, redundancyGroup con))) (masterConnections s)"
  shows "length (masterConnections s') = length (masterConnections s)
         \<and> (\<forall>j<length (masterConnections s). slot_not_activated s s' j)"
proof -
  have len: "length (masterConnections s') = length (masterConnections s)"
    using assms by (rule map_eq_imp_length_eq)
  have "slot_not_activated s s' j" if "j < length (masterConnections s)" for j
  proof -
    have "map_option (\<lambda>con. (isActive con, redundancyGroup con)) (masterConnections s' ! j)
          = map_option (\<lambda>con. (isActive con, redundancyGroup con)) (masterConnections s ! j)"
    proof -
      have "map (map_option (\<lambda>con. (isActive con, redundancyGroup con))) (masterConnections s') ! j
            = map (map_option (\<lambda>con. (isActive con, redundancyGroup con))) (masterConnections s) ! j"
        using assms by simp
      then show ?thesis using that len by simp
    qed
    then show ?thesis
      by (cases "masterConnections s' ! j"; cases "masterConnections s ! j")
         (auto simp: slot_not_activated_def)
  qed
  with len show ?thesis by simp
qed

lemma step_exclusive:
  assumes "sequential_step s s'"
    and "serverMode s \<noteq> CS104_MODE_CONNECTION_IS_REDUNDANCY_GROUP"
    and "activation_exclusive s"
  shows "activation_exclusive s'"
  using assms
proof (induction rule: sequential_step.induct)
  case (step_activate s i s')
  from step_activate(1,2,3) show ?case by (rule activate_preserves)
next
  case (step_deactivate i s con)
  note f = deactivate_slots [OF step_deactivate(1,2)]
  show ?case
  proof (rule exclusive_mono [OF step_deactivate(4)])
    show "length (masterConnections (setConnection s i (MasterConnection_deactivate con)))
          = length (masterConnections s)" using f by blast
    show "serverMode (setConnection s i (MasterConnection_deactivate con)) = serverMode s"
      using f by blast
    show "slot_not_activated s (setConnection s i (MasterConnection_deactivate con)) j"
      if "j < length (masterConnections s)" for j using f that by blast
  qed
next
  case (step_init currentTime s i skt lowQ highQ s')
  note f = init_slots [OF step_init(1)]
  show ?case
  proof (rule exclusive_mono [OF step_init(3)])
    show "length (masterConnections s') = length (masterConnections s)" using f by blast
    show "serverMode s' = serverMode s" using f by blast
    show "slot_not_activated s s' j" if "j < length (masterConnections s)" for j
      using f that by blast
  qed
next
  case (step_initEx currentTime s i skt redGroup lowQ highQ s')
  note f = initEx_slots [OF step_initEx(1)]
  show ?case
  proof (rule exclusive_mono [OF step_initEx(3)])
    show "length (masterConnections s') = length (masterConnections s)" using f by blast
    show "serverMode s' = serverMode s" using f by blast
    show "slot_not_activated s s' j" if "j < length (masterConnections s)" for j
      using f that by blast
  qed
next
  case (step_other s' s)
  note f = other_slots [OF step_other(2)]
  show ?case
  proof (rule exclusive_mono [OF step_other(4)])
    show "length (masterConnections s') = length (masterConnections s)" using f by blast
    show "serverMode s' = serverMode s" by (rule step_other(1))
    show "slot_not_activated s s' j" if "j < length (masterConnections s)" for j
      using f that by blast
  qed
qed

lemma created_exclusive:
  assumes "list_all (\<lambda>slot. case slot of None \<Rightarrow> True | Some con \<Rightarrow> \<not> isActive con)
             (masterConnections s)"
  shows "activation_exclusive s"
  unfolding exclusive_iff
proof (intro allI impI)
  fix i j
  assume i: "i < length (masterConnections s)"
  have "case masterConnections s ! i of None \<Rightarrow> True | Some con \<Rightarrow> \<not> isActive con"
    using assms i by (simp add: list_all_length)
  then show "\<not> active_together s i j"
    by (auto simp: active_together_def split: option.splits)
qed

lemma reachable_exclusive:
  assumes "sequential_reachable s"
    and "serverMode s \<noteq> CS104_MODE_CONNECTION_IS_REDUNDANCY_GROUP"
  shows "activation_exclusive s"
  using assms
proof (induction rule: sequential_reachable.induct)
  case (reach_created s)
  then show ?case by (intro created_exclusive)
next
  case (reach_step s s')
  have m: "serverMode s \<noteq> CS104_MODE_CONNECTION_IS_REDUNDANCY_GROUP"
    using step_mode [OF reach_step(2)] reach_step(4) by simp
  show ?case using reach_step(2) m reach_step(3) [OF m] by (rule step_exclusive)
qed

lemma activations_reachable:
  "sequential_reachable s \<Longrightarrow> activations ts s = Some s' \<Longrightarrow> sequential_reachable s'"
proof (induction ts arbitrary: s)
  case Nil
  then show ?case by simp
next
  case (Cons i ts)
  from Cons.prems(2) obtain s1 where a: "CS104_Slave_activate s i = Some s1"
    and r: "activations ts s1 = Some s'"
    by (auto split: option.splits)
  have "sequential_reachable s1"
    using Cons.prems(1) step_activate [OF a] by (rule reach_step)
  then show ?case using r by (rule Cons.IH)
qed

lemma activations_mode:
  "activations ts s = Some s' \<Longrightarrow> serverMode s' = serverMode s"
proof (induction ts arbitrary: s)
  case Nil
  then show ?case by simp
next
  case (Cons i ts)
  from Cons.prems obtain s1 where a: "CS104_Slave_activate s i = Some s1"
    and r: "activations ts s1 = Some s'"
    by (auto split: option.splits)
  show ?case using Cons.IH [OF r] activate_length [OF a] by simp
qed

text \<open>
  With one thread for all connections, no two different slots hold connections that
  are active in the same scope (all slots in the single-group mode, the slots of one
  group in the mode with several groups), and a complete run of
  \<^const>\<open>CS104_Slave_activate\<close> keeps it so, leaves the target active and every other
  slot of the target's scope inactive.
\<close>

lemma sequential_activation_exclusive:
  assumes "sequential_reachable s"
    and "serverMode s \<noteq> CS104_MODE_CONNECTION_IS_REDUNDANCY_GROUP"
  shows "activation_exclusive s
       \<and> (\<forall>t s'. CS104_Slave_activate s t = Some s' \<longrightarrow>
             activation_exclusive s'
           \<and> map_option isActive (masterConnections s' ! t) = Some True
           \<and> (\<forall>j<length (masterConnections s'). j \<noteq> t \<longrightarrow> \<not> active_together s' j t))"
proof -
  have ex: "activation_exclusive s" using assms by (rule reachable_exclusive)
  have "activation_exclusive s'
           \<and> map_option isActive (masterConnections s' ! t) = Some True
           \<and> (\<forall>j<length (masterConnections s'). j \<noteq> t \<longrightarrow> \<not> active_together s' j t)"
    if a: "CS104_Slave_activate s t = Some s'" for t s'
  proof -
    obtain target where t: "t < length (masterConnections s)" "masterConnections s ! t = Some target"
      using activate_target [OF a] by blast
    have "masterConnections s' ! t = Some (target\<lparr> isActive := True \<rparr>)"
      using activate_nth [OF a t(1) t(2)] t(2) by simp
    then show ?thesis
      using activate_preserves [OF a assms(2) ex] activate_exclusive_target [OF a assms(2)]
      by simp
  qed
  with ex show ?thesis by blast
qed

lemma ex_groups_created: "sequential_reachable ex_groups"
  by (rule reach_created) (simp add: ex_groups_def ex_slave_def ex_connection_def)

lemma ex_groups_run:
  "map_option (\<lambda>s. map (map_option (\<lambda>c. (isActive c, redundancyGroup c))) (masterConnections s))
     (activations [0, 2, 1] ex_groups)
   = Some [Some (False, 1), Some (True, 1), Some (True, 2)]"
  by (simp add: ex_groups_def ex_slave_def ex_connection_def CS104_Slave_activate_def CS104_Slave_activate_peers_def
        CS104_Slave_activate_target_def
        updateConnection_def MasterConnection_activate_def MasterConnection_deactivate_def
        enumerate_eq_zip upt_rec Let_def)

lemma sequential_activation_example:
  "\<exists>s. activations [0, 2, 1] ex_groups = Some s
       \<and> map (map_option (\<lambda>c. (isActive c, redundancyGroup c))) (masterConnections s)
           = [Some (False, 1), Some (True, 1), Some (True, 2)]
       \<and> activation_exclusive s"
proof -
  obtain s where s: "activations [0, 2, 1] ex_groups = Some s"
    and m: "map (map_option (\<lambda>c. (isActive c, redundancyGroup c))) (masterConnections s)
           = [Some (False, 1), Some (True, 1), Some (True, 2)]"
    using ex_groups_run by auto
  have r: "sequential_reachable s"
    using ex_groups_created s by (rule activations_reachable)
  have "serverMode s = CS104_MODE_MULTIPLE_REDUNDANCY_GROUPS"
    using activations_mode [OF s] by (simp add: ex_groups_def)
  then have md: "serverMode s \<noteq> CS104_MODE_CONNECTION_IS_REDUNDANCY_GROUP" by simp
  have e: "activation_exclusive s"
    using sequential_activation_exclusive [OF r md] by blast
  show ?thesis
    by (rule exI [of _ s]) (intro conjI s m e)
qed

text \<open>
  Claim C5, at an input where the code departs from it: two masters of the same
  redundancy group (slots 0 and 1 of \<^const>\<open>ex_groups\<close>) send STARTDT_ACT and their
  connection threads are in \<^verbatim>\<open>CS104_Slave_activate\<close> at the same time. When each call
  runs to its end before the other starts, slot 1 alone is active afterwards. When both
  threads pass the loop that deactivates the peers before either reaches
  \<^verbatim>\<open>MasterConnection_activate\<close>, which runs after the lock has been released, both
  connections are active in the same scope afterwards; the same in the single-group
  mode.
\<close>

theorem activate_race_two_active:
  "map (\<lambda>schedule.
          map_option (\<lambda>s. (map (map_option isActive) (masterConnections s), active_together s 0 1))
            (scheduled schedule ex_groups))
     [[ActivatePeers 0, ActivateTarget 0, ActivatePeers 1, ActivateTarget 1],
      [ActivatePeers 0, ActivatePeers 1, ActivateTarget 0, ActivateTarget 1]]
   = [Some ([Some False, Some True, Some False], False),
      Some ([Some True, Some True, Some False], True)]
   \<and> map_option (\<lambda>s. (map (map_option isActive) (masterConnections s), active_together s 0 1))
       (scheduled [ActivatePeers 0, ActivatePeers 1, ActivateTarget 0, ActivateTarget 1]
          (ex_groups\<lparr> serverMode := CS104_MODE_SINGLE_REDUNDANCY_GROUP \<rparr>))
     = Some ([Some True, Some True, Some False], True)"
  by (simp add: ex_groups_def ex_slave_def ex_connection_def CS104_Slave_activate_peers_def
        CS104_Slave_activate_target_def active_together_def
        updateConnection_def MasterConnection_activate_def MasterConnection_deactivate_def
        enumerate_eq_zip upt_rec Let_def)


end
